theory Spec2Isabelle
  imports Complex_Main "HOL-Library.Char_ord" "HOL-Library.List_Lexorder"
begin

section \<open>Python floats: IEEE 754 binary64 with round-to-nearest-even\<close>

text \<open>
  The service computes with Python \<^verbatim>\<open>float\<close>s.  A float is modelled by its exact value:
  a sign and a rational magnitude (so that \<open>-0.0\<close> and \<open>0.0\<close> are different values), the
  two infinities, or NaN.  Every arithmetic operation computes the exact rational result and
  rounds it once to the nearest binary64 number, ties to even, as IEEE 754 prescribes;
  a result of magnitude \<open>2 ^ 1024\<close> or more after rounding is an infinity.
\<close>

datatype double = Num bool rat | Infty bool | NaN

text \<open>Number of binary digits of a natural number (Python's \<^verbatim>\<open>int.bit_length\<close>).\<close>

fun bit_length :: "nat \<Rightarrow> nat" where
  "bit_length n = (if n = 0 then 0 else Suc (bit_length (n div 2)))"

declare bit_length.simps [simp del]

text \<open>The binary exponent \<open>\<lfloor>log\<^sub>2 q\<rfloor>\<close> of a positive rational.\<close>

definition ilog2 :: "rat \<Rightarrow> int" where
  "ilog2 q = (if 1 \<le> q then int (bit_length (nat \<lfloor>q\<rfloor>)) - 1
              else - int (bit_length (nat (\<lceil>1 / q\<rceil> - 1))))"

definition round_half_even :: "rat \<Rightarrow> int" where
  "round_half_even y = (let f = \<lfloor>y\<rfloor>; d = y - of_int f in
     if d < 1 / 2 then f else if 1 / 2 < d then f + 1 else if even f then f else f + 1)"

text \<open>
  Rounding a magnitude \<open>q \<ge> 0\<close> with sign \<open>s\<close> to binary64: the spacing of the
  representable numbers around \<open>q\<close> is \<open>2 ^ (e - 52)\<close> where \<open>e\<close> is the binary exponent
  of \<open>q\<close>, not below \<open>-1022\<close> (the subnormal range has the spacing \<open>2 ^ -1074\<close>).
\<close>

definition round_to_double :: "bool \<Rightarrow> rat \<Rightarrow> double" where
  "round_to_double s q = (if q = 0 then Num s 0 else
     let u = 2 powi (max (ilog2 q) (- 1022) - 52);
         r = of_int (round_half_even (q / u)) * u
     in if 2 ^ 1024 \<le> r then Infty s else Num s r)"

text \<open>A float literal of the source, such as \<^verbatim>\<open>0.3048\<close>, is the decimal rounded to binary64.\<close>

definition lit :: "rat \<Rightarrow> double" where
  "lit q = round_to_double False q"

text \<open>Conversion of a Python \<^verbatim>\<open>int\<close> to float (\<^verbatim>\<open>float(i)\<close>, also implicit in mixed arithmetic).\<close>

definition float_of_int :: "int \<Rightarrow> double" where
  "float_of_int i = round_to_double (i < 0) (of_int \<bar>i\<bar>)"

text \<open>The signed value of a finite float.\<close>

definition sval :: "bool \<Rightarrow> rat \<Rightarrow> rat" where
  "sval s q = (if s then - q else q)"

fun fneg :: "double \<Rightarrow> double" where
  "fneg (Num s q) = Num (\<not> s) q"
| "fneg (Infty s) = Infty (\<not> s)"
| "fneg NaN = NaN"

fun fabs :: "double \<Rightarrow> double" where
  "fabs (Num s q) = Num False q"
| "fabs (Infty s) = Infty False"
| "fabs NaN = NaN"

fun fmul :: "double \<Rightarrow> double \<Rightarrow> double" where
  "fmul NaN _ = NaN"
| "fmul _ NaN = NaN"
| "fmul (Infty s) (Infty t) = Infty (s \<noteq> t)"
| "fmul (Infty s) (Num t q) = (if q = 0 then NaN else Infty (s \<noteq> t))"
| "fmul (Num s p) (Infty t) = (if p = 0 then NaN else Infty (s \<noteq> t))"
| "fmul (Num s p) (Num t q) = round_to_double (s \<noteq> t) (p * q)"

fun fdiv :: "double \<Rightarrow> double \<Rightarrow> double" where
  "fdiv NaN _ = NaN"
| "fdiv _ NaN = NaN"
| "fdiv (Infty s) (Infty t) = NaN"
| "fdiv (Infty s) (Num t q) = Infty (s \<noteq> t)"
| "fdiv (Num s p) (Infty t) = Num (s \<noteq> t) 0"
| "fdiv (Num s p) (Num t q) =
     (if q = 0 then (if p = 0 then NaN else Infty (s \<noteq> t))
      else round_to_double (s \<noteq> t) (p / q))"

fun fadd :: "double \<Rightarrow> double \<Rightarrow> double" where
  "fadd NaN _ = NaN"
| "fadd _ NaN = NaN"
| "fadd (Infty s) (Infty t) = (if s = t then Infty s else NaN)"
| "fadd (Infty s) (Num t q) = Infty s"
| "fadd (Num s p) (Infty t) = Infty t"
| "fadd (Num s p) (Num t q) =
     (let r = sval s p + sval t q
      in if r = 0 then Num (s \<and> t) 0 else round_to_double (r < 0) \<bar>r\<bar>)"

definition fsub :: "double \<Rightarrow> double \<Rightarrow> double" where
  "fsub a b = fadd a (fneg b)"

text \<open>The comparisons \<^verbatim>\<open><\<close> and \<^verbatim>\<open><=\<close> on floats: false as soon as one side is NaN.\<close>

fun flt :: "double \<Rightarrow> double \<Rightarrow> bool" where
  "flt NaN _ = False"
| "flt _ NaN = False"
| "flt (Infty s) (Infty t) = (s \<and> \<not> t)"
| "flt (Infty s) (Num t q) = s"
| "flt (Num s p) (Infty t) = (\<not> t)"
| "flt (Num s p) (Num t q) = (sval s p < sval t q)"

fun fle :: "double \<Rightarrow> double \<Rightarrow> bool" where
  "fle NaN _ = False"
| "fle _ NaN = False"
| "fle (Infty s) (Infty t) = (s \<or> \<not> t)"
| "fle (Infty s) (Num t q) = s"
| "fle (Num s p) (Infty t) = (\<not> t)"
| "fle (Num s p) (Num t q) = (sval s p \<le> sval t q)"

fun is_zero :: "double \<Rightarrow> bool" where
  "is_zero (Num s q) = (q = 0)"
| "is_zero (Infty s) = False"
| "is_zero NaN = False"

text \<open>
  A value of the model is a binary64 number when rounding leaves it unchanged.
\<close>

fun is_double :: "double \<Rightarrow> bool" where
  "is_double (Num s q) = (0 \<le> q \<and> round_to_double s q = Num s q)"
| "is_double (Infty s) = True"
| "is_double NaN = True"

fun is_finite :: "double \<Rightarrow> bool" where
  "is_finite (Num s q) = True"
| "is_finite (Infty s) = False"
| "is_finite NaN = False"

text \<open>
  The comparison \<^verbatim>\<open>==\<close> on floats: NaN is equal to nothing, not even to itself, and the two
  zeros are equal.
\<close>

fun feq :: "double \<Rightarrow> double \<Rightarrow> bool" where
  "feq NaN _ = False"
| "feq _ NaN = False"
| "feq (Infty s) (Infty t) = (s = t)"
| "feq (Infty s) (Num t q) = False"
| "feq (Num s p) (Infty t) = False"
| "feq (Num s p) (Num t q) = (sval s p = sval t q)"

text \<open>
  The builtin \<^verbatim>\<open>round(x, ndigits)\<close> on a float, for \<open>ndigits \<ge> 0\<close>: CPython converts
  \<open>x\<close> to the decimal string with \<open>ndigits\<close> digits after the point that is nearest to the
  exact value of \<open>x\<close> (ties to even), and reads that string back as the nearest float.
  The sign is kept (\<^verbatim>\<open>round(-0.0001, 2)\<close> is \<^verbatim>\<open>-0.0\<close>); infinities and NaN round to themselves.
\<close>

fun float_round :: "double \<Rightarrow> nat \<Rightarrow> double" where
  "float_round (Num s q) n = round_to_double s (of_int (round_half_even (q * 10 ^ n)) / 10 ^ n)"
| "float_round (Infty s) n = Infty s"
| "float_round NaN n = NaN"

section \<open>Python values used by the service\<close>

text \<open>
  A Python number is an \<^verbatim>\<open>int\<close> or a \<^verbatim>\<open>float\<close>: \<^verbatim>\<open>round_result\<close> returns the \<^verbatim>\<open>int\<close> \<open>0\<close> in
  its first branch, and the currency provider's JSON may hold integers.
\<close>

datatype pynum = PyInt int | PyFloat double

datatype pyerror =
    KeyError string
  | ValueError string
  | TypeError
  | AttributeError
  | ZeroDivisionError
  | OverflowError
  | UpstreamException string

text \<open>\<^verbatim>\<open>abs(x)\<close>, \<^verbatim>\<open>-x\<close>, \<^verbatim>\<open>round(x, n)\<close> (an \<^verbatim>\<open>int\<close> rounds to itself for \<open>n \<ge> 0\<close>).\<close>

fun py_abs :: "pynum \<Rightarrow> pynum" where
  "py_abs (PyInt i) = PyInt \<bar>i\<bar>"
| "py_abs (PyFloat d) = PyFloat (fabs d)"

fun py_neg :: "pynum \<Rightarrow> pynum" where
  "py_neg (PyInt i) = PyInt (- i)"
| "py_neg (PyFloat d) = PyFloat (fneg d)"

fun py_round :: "pynum \<Rightarrow> nat \<Rightarrow> pynum" where
  "py_round (PyInt i) n = PyInt i"
| "py_round (PyFloat d) n = PyFloat (float_round d n)"

text \<open>
  \<^verbatim>\<open>x < c\<close> and \<^verbatim>\<open>c <= x\<close> for a number \<open>x\<close> and a float constant \<open>c\<close>.  Python compares an
  \<^verbatim>\<open>int\<close> with a float by their exact values.
\<close>

fun py_lt :: "pynum \<Rightarrow> double \<Rightarrow> bool" where
  "py_lt (PyFloat d) c = flt d c"
| "py_lt (PyInt i) (Num t q) = (of_int i < sval t q)"
| "py_lt (PyInt i) (Infty t) = (\<not> t)"
| "py_lt (PyInt i) NaN = False"

fun py_ge :: "pynum \<Rightarrow> double \<Rightarrow> bool" where
  "py_ge (PyFloat d) c = fle c d"
| "py_ge (PyInt i) (Num t q) = (sval t q \<le> of_int i)"
| "py_ge (PyInt i) (Infty t) = t"
| "py_ge (PyInt i) NaN = False"

text \<open>
  \<^verbatim>\<open>x == y\<close> on two numbers: an \<^verbatim>\<open>int\<close> and a float are compared by their exact values.
\<close>

fun py_eq :: "pynum \<Rightarrow> pynum \<Rightarrow> bool" where
  "py_eq (PyInt i) (PyInt j) = (i = j)"
| "py_eq (PyFloat d) (PyFloat e) = feq d e"
| "py_eq (PyInt i) (PyFloat (Num t q)) = (of_int i = sval t q)"
| "py_eq (PyInt i) (PyFloat (Infty t)) = False"
| "py_eq (PyInt i) (PyFloat NaN) = False"
| "py_eq (PyFloat (Num s p)) (PyInt j) = (sval s p = of_int j)"
| "py_eq (PyFloat (Infty s)) (PyInt j) = False"
| "py_eq (PyFloat NaN) (PyInt j) = False"

text \<open>
  \<^verbatim>\<open>float(x)\<close>, as pydantic applies it to a field declared \<^verbatim>\<open>float\<close>: an \<^verbatim>\<open>int\<close> is rounded to
  the nearest float, and one too large raises \<^verbatim>\<open>OverflowError\<close>.
\<close>

fun py_float :: "pynum \<Rightarrow> pyerror + double" where
  "py_float (PyFloat d) = Inr d"
| "py_float (PyInt i) =
     (case float_of_int i of Infty s \<Rightarrow> Inl OverflowError | d \<Rightarrow> Inr d)"

text \<open>
  \<^verbatim>\<open>a / b\<close> on floats raises \<^verbatim>\<open>ZeroDivisionError\<close> when \<open>b\<close> is a zero;
  \<^verbatim>\<open>d[k]\<close> on a dict raises \<^verbatim>\<open>KeyError\<close> when the key is missing.
  A table entry may be \<^verbatim>\<open>None\<close> (the temperature units), on which arithmetic raises
  \<^verbatim>\<open>TypeError\<close>.
\<close>

definition py_truediv :: "double \<Rightarrow> double \<Rightarrow> pyerror + double" where
  "py_truediv a b = (if is_zero b then Inl ZeroDivisionError else Inr (fdiv a b))"

definition getitem :: "(string \<times> 'v) list \<Rightarrow> string \<Rightarrow> pyerror + 'v" where
  "getitem d k = (case map_of d k of None \<Rightarrow> Inl (KeyError k) | Some v \<Rightarrow> Inr v)"

section \<open>Constants and supported categories\<close>

record unit_category =
  units :: "(string \<times> double option) list"
  display :: string

definition length_units :: "(string \<times> double option) list" where
  "length_units =
    [(''meters'', Some (lit 1.0)),
     (''kilometers'', Some (lit 1000.0)),
     (''centimeters'', Some (lit 0.01)),
     (''millimeters'', Some (lit 0.001)),
     (''miles'', Some (lit 1609.344)),
     (''yards'', Some (lit 0.9144)),
     (''feet'', Some (lit 0.3048)),
     (''inches'', Some (lit 0.0254))]"

definition weight_units :: "(string \<times> double option) list" where
  "weight_units =
    [(''kilograms'', Some (lit 1.0)),
     (''grams'', Some (lit 0.001)),
     (''milligrams'', Some (lit 0.000001)),
     (''pounds'', Some (lit 0.45359237)),
     (''ounces'', Some (lit 0.0283495231)),
     (''stones'', Some (lit 6.35029318)),
     (''tons'', Some (lit 1000.0))]"

definition temperature_units :: "(string \<times> double option) list" where
  "temperature_units =
    [(''celsius'', None),
     (''fahrenheit'', None),
     (''kelvin'', None)]"

definition speed_units :: "(string \<times> double option) list" where
  "speed_units =
    [(''m/s'', Some (lit 1.0)),
     (''km/h'', Some (lit 0.277778)),
     (''mph'', Some (lit 0.44704)),
     (''ft/s'', Some (lit 0.3048)),
     (''knots'', Some (lit 0.514444))]"

definition UNIT_CATEGORIES :: "(string \<times> unit_category) list" where
  "UNIT_CATEGORIES =
    [(''length'', \<lparr>units = length_units, display = ''Length''\<rparr>),
     (''weight'', \<lparr>units = weight_units, display = ''Weight''\<rparr>),
     (''temperature'', \<lparr>units = temperature_units, display = ''Temperature''\<rparr>),
     (''speed'', \<lparr>units = speed_units, display = ''Speed''\<rparr>)]"

definition SUPPORTED_UNIT_CATEGORIES :: "string list" where
  "SUPPORTED_UNIT_CATEGORIES = map fst UNIT_CATEGORIES"

section \<open>Business logic\<close>

fun py_mul :: "double \<Rightarrow> double option \<Rightarrow> pyerror + double" where
  "py_mul v None = Inl TypeError"
| "py_mul v (Some s) = Inr (fmul v s)"

fun py_div :: "double \<Rightarrow> double option \<Rightarrow> pyerror + double" where
  "py_div v None = Inl TypeError"
| "py_div v (Some s) = py_truediv v s"

text \<open>
  \<^verbatim>\<open>units = UNIT_CATEGORIES["length"]["units"]\<close>,
  \<^verbatim>\<open>value_meters = value * units[from_unit]\<close>,
  \<^verbatim>\<open>return value_meters / units[to_unit]\<close>.
\<close>

definition convert_length :: "double \<Rightarrow> string \<Rightarrow> string \<Rightarrow> pyerror + double" where
  "convert_length v from_unit to_unit =
     (case getitem UNIT_CATEGORIES ''length'' of Inl e \<Rightarrow> Inl e | Inr cat \<Rightarrow>
      case getitem (units cat) from_unit of Inl e \<Rightarrow> Inl e | Inr sf \<Rightarrow>
      case py_mul v sf of Inl e \<Rightarrow> Inl e | Inr value_meters \<Rightarrow>
      case getitem (units cat) to_unit of Inl e \<Rightarrow> Inl e | Inr st \<Rightarrow>
      py_div value_meters st)"

definition convert_weight :: "double \<Rightarrow> string \<Rightarrow> string \<Rightarrow> pyerror + double" where
  "convert_weight v from_unit to_unit =
     (case getitem UNIT_CATEGORIES ''weight'' of Inl e \<Rightarrow> Inl e | Inr cat \<Rightarrow>
      case getitem (units cat) from_unit of Inl e \<Rightarrow> Inl e | Inr sf \<Rightarrow>
      case py_mul v sf of Inl e \<Rightarrow> Inl e | Inr value_kg \<Rightarrow>
      case getitem (units cat) to_unit of Inl e \<Rightarrow> Inl e | Inr st \<Rightarrow>
      py_div value_kg st)"

text \<open>
  \<^verbatim>\<open>convert_temperature\<close>: the test \<^verbatim>\<open>from_unit == to_unit\<close> comes first, before any unit
  name is looked at; then the value is taken to Celsius, then to the target.
  The integer constants \<open>32\<close>, \<open>5\<close>, \<open>9\<close> become floats in the mixed arithmetic.
\<close>

definition convert_temperature :: "double \<Rightarrow> string \<Rightarrow> string \<Rightarrow> pyerror + double" where
  "convert_temperature v from_unit to_unit =
     (if from_unit = to_unit then Inr v
      else
        case
          (if from_unit = ''celsius'' then Inr v
           else if from_unit = ''fahrenheit'' then
             py_truediv (fmul (fsub v (float_of_int 32)) (float_of_int 5)) (float_of_int 9)
           else if from_unit = ''kelvin'' then Inr (fsub v (lit 273.15))
           else Inl (ValueError (''Unsupported temperature unit: '' @ from_unit)))
        of Inl e \<Rightarrow> Inl e
         | Inr c \<Rightarrow>
            if to_unit = ''celsius'' then Inr c
            else if to_unit = ''fahrenheit'' then
              (case py_truediv (fmul c (float_of_int 9)) (float_of_int 5) of
                 Inl e \<Rightarrow> Inl e
               | Inr x \<Rightarrow> Inr (fadd x (float_of_int 32)))
            else if to_unit = ''kelvin'' then Inr (fadd c (lit 273.15))
            else Inl (ValueError (''Unsupported temperature unit: '' @ to_unit)))"

definition convert_speed :: "double \<Rightarrow> string \<Rightarrow> string \<Rightarrow> pyerror + double" where
  "convert_speed v from_unit to_unit =
     (case getitem UNIT_CATEGORIES ''speed'' of Inl e \<Rightarrow> Inl e | Inr cat \<Rightarrow>
      case getitem (units cat) from_unit of Inl e \<Rightarrow> Inl e | Inr sf \<Rightarrow>
      case py_mul v sf of Inl e \<Rightarrow> Inl e | Inr value_mps \<Rightarrow>
      case getitem (units cat) to_unit of Inl e \<Rightarrow> Inl e | Inr st \<Rightarrow>
      py_div value_mps st)"

text \<open>Smart rounding for display.  The first branch returns the \<^verbatim>\<open>int\<close> \<open>0\<close>.\<close>

definition round_result :: "pynum \<Rightarrow> pynum" where
  "round_result v =
     (if py_lt (py_abs v) (lit 0.000001) then PyInt 0
      else if py_lt (py_abs v) (float_of_int 1) then py_round v 6
      else if py_lt (py_abs v) (float_of_int 100) then py_round v 4
      else if py_lt (py_abs v) (float_of_int 10000) then py_round v 2
      else py_round v 1)"

text \<open>Mapping from category to conversion function.\<close>

definition CONVERSION_FUNC :: "(string \<times> (double \<Rightarrow> string \<Rightarrow> string \<Rightarrow> pyerror + double)) list" where
  "CONVERSION_FUNC =
    [(''length'', convert_length),
     (''weight'', convert_weight),
     (''temperature'', convert_temperature),
     (''speed'', convert_speed)]"

section \<open>Requests, responses and errors\<close>

text \<open>
  What the provider's JSON answer is after \<^verbatim>\<open>response.json()\<close>.  A dict is an association
  list read with \<open>map_of\<close>.
\<close>

datatype json =
    JNull
  | JBool bool
  | JNum pynum
  | JStr string
  | JList "json list"
  | JDict "(string \<times> json) list"

text \<open>
  The \<^verbatim>\<open>detail\<close> of an \<^verbatim>\<open>HTTPException\<close>: a fixed text, \<^verbatim>\<open>str(e)\<close> of a caught exception, or
  an f-string with one interpolated provider value.
\<close>

datatype detail = Text string | StrOf pyerror | Fstr string json

text \<open>
  Errors found while the request body is validated against the pydantic model: a field that
  fails its declared type or constraint, or the exception raised by the root validator.
\<close>

datatype validation_error =
    LiteralMismatch string
  | ConstraintViolation string
  | RootValidator pyerror

text \<open>
  What a request ends in: the handler returns a response model, an \<^verbatim>\<open>HTTPException\<close> is
  raised, the body fails validation before the handler runs, or an exception escapes.
\<close>

datatype 'a outcome =
    Returned 'a
  | HTTPException nat detail
  | RequestValidationError "validation_error list"
  | Unhandled pyerror

record UnitConversionRequest =
  req_category :: string
  req_from_unit :: string
  req_to_unit :: string
  req_value :: double

record UnitConversionResponse =
  resp_category :: string
  resp_from_unit :: string
  resp_to_unit :: string
  input_value :: double
  converted_value :: double

record CurrencyConversionRequest =
  from_currency :: string
  to_currency :: string
  amount :: double

record CurrencyConversionResponse =
  resp_from_currency :: string
  resp_to_currency :: string
  input_amount :: double
  converted_amount :: double
  rate :: double

text \<open>
  \<^verbatim>\<open>repr\<close> of a list of unit or category names, as the f-strings of the validator print
  \<^verbatim>\<open>list(units.keys())\<close>: the names of the tables hold no quote and no character to escape.
\<close>

definition repr_str :: "string \<Rightarrow> string" where
  "repr_str s = [CHR 0x27] @ s @ [CHR 0x27]"

fun join :: "string \<Rightarrow> string list \<Rightarrow> string" where
  "join sep [] = []"
| "join sep [x] = x"
| "join sep (x # y # ys) = x @ sep @ join sep (y # ys)"

definition repr_list :: "string list \<Rightarrow> string" where
  "repr_list xs = ''['' @ join '', '' (map repr_str xs) @ '']''"

text \<open>\<^verbatim>\<open>str(x)\<close> of a value that is a string or \<^verbatim>\<open>None\<close>.\<close>

fun str_opt :: "string option \<Rightarrow> string" where
  "str_opt None = ''None''"
| "str_opt (Some s) = s"

text \<open>
  The root validator of \<^verbatim>\<open>UnitConversionRequest\<close>.  It reads \<^verbatim>\<open>category\<close>, \<^verbatim>\<open>from_unit\<close> and
  \<^verbatim>\<open>to_unit\<close> from the validated values; \<^verbatim>\<open>category\<close> is \<^verbatim>\<open>None\<close> when the field failed its
  own \<^verbatim>\<open>Literal\<close> check.  It raises \<^verbatim>\<open>ValueError\<close> or returns the values unchanged.
\<close>

definition validate_units :: "string option \<Rightarrow> string \<Rightarrow> string \<Rightarrow> pyerror + unit" where
  "validate_units category from_unit to_unit =
     (case (case category of None \<Rightarrow> None | Some c \<Rightarrow> map_of UNIT_CATEGORIES c) of
        None \<Rightarrow>
          Inl (ValueError (''Invalid category '' @ repr_str (str_opt category)
                 @ ''. Supported: '' @ repr_list (map fst UNIT_CATEGORIES)))
      | Some cat \<Rightarrow>
          if from_unit \<notin> set (map fst (units cat)) then
            Inl (ValueError (''from_unit '' @ repr_str from_unit @ '' not valid for category ''
                   @ repr_str (str_opt category) @ ''. Supported: ''
                   @ repr_list (map fst (units cat))))
          else if to_unit \<notin> set (map fst (units cat)) then
            Inl (ValueError (''to_unit '' @ repr_str to_unit @ '' not valid for category ''
                   @ repr_str (str_opt category) @ ''. Supported: ''
                   @ repr_list (map fst (units cat))))
          else Inr ())"

section \<open>REST API endpoints\<close>

text \<open>
  The handler of \<^verbatim>\<open>POST /convert\<close>.  The lookup in \<^verbatim>\<open>CONVERSION_FUNC\<close> is outside the
  \<^verbatim>\<open>try\<close>; an exception of the conversion becomes \<^verbatim>\<open>HTTPException(400, str(e))\<close>; the
  response model coerces \<^verbatim>\<open>converted_value\<close> to \<^verbatim>\<open>float\<close>.
\<close>

definition convert_units :: "UnitConversionRequest \<Rightarrow> UnitConversionResponse outcome" where
  "convert_units request =
     (case getitem CONVERSION_FUNC (req_category request) of
        Inl e \<Rightarrow> Unhandled e
      | Inr conversion_func \<Rightarrow>
         (case conversion_func (req_value request) (req_from_unit request) (req_to_unit request) of
            Inl e \<Rightarrow> HTTPException 400 (StrOf e)
          | Inr result \<Rightarrow>
             (case py_float (round_result (PyFloat result)) of
                Inl e \<Rightarrow> Unhandled e
              | Inr cv \<Rightarrow>
                 Returned \<lparr>resp_category = req_category request,
                           resp_from_unit = req_from_unit request,
                           resp_to_unit = req_to_unit request,
                           input_value = req_value request,
                           converted_value = cv\<rparr>)))"

text \<open>
  Validation and handler of \<^verbatim>\<open>POST /convert\<close>, for a body whose four fields are present
  and of the right JSON type: the body is validated against \<^verbatim>\<open>UnitConversionRequest\<close> (the
  \<^verbatim>\<open>Literal\<close> of \<^verbatim>\<open>category\<close>, then the root validator, which pydantic runs also after a
  field error), and the handler is called only with a body that passed.  This is the
  outcome before the framework renders it; \<open>http_post_convert\<close> below is the HTTP response.
\<close>

definition post_convert :: "UnitConversionRequest \<Rightarrow> UnitConversionResponse outcome" where
  "post_convert body =
     (let literal_ok = (req_category body \<in> set [''length'', ''weight'', ''temperature'', ''speed'']);
          field_errors = (if literal_ok then [] else [LiteralMismatch ''category''])
      in case validate_units (if literal_ok then Some (req_category body) else None)
                (req_from_unit body) (req_to_unit body) of
           Inl e \<Rightarrow> RequestValidationError (field_errors @ [RootValidator e])
         | Inr u \<Rightarrow>
            if field_errors = [] then convert_units body
            else RequestValidationError field_errors)"

section \<open>Currency conversion integration\<close>

text \<open>
  What the \<^verbatim>\<open>try\<close> block around the provider call ends in: an exception (of
  \<^verbatim>\<open>client.get\<close>, of \<^verbatim>\<open>raise_for_status\<close> or of \<^verbatim>\<open>response.json\<close>) with its \<^verbatim>\<open>str\<close>, or the
  decoded JSON.  Which network conditions and status codes make the HTTP client raise is the
  client library's matter and is not part of this program.
\<close>

datatype upstream = Upstream_raised string | Upstream_json json

text \<open>
  \<^verbatim>\<open>str.upper\<close> follows the Unicode tables of the Python runtime, which are not part of the
  program: the handler below takes it as the parameter \<open>str_upper\<close>.  On a string of ASCII
  characters \<^verbatim>\<open>str.upper\<close> is \<open>ascii_upper\<close>, which the examples with the codes \<^verbatim>\<open>usd\<close> and
  \<^verbatim>\<open>eur\<close> pass for it.
\<close>

definition upper_char :: "char \<Rightarrow> char" where
  "upper_char c =
     (if CHR ''a'' \<le> c \<and> c \<le> CHR ''z'' then char_of (of_char c - (32::nat)) else c)"

definition ascii_upper :: "string \<Rightarrow> string" where
  "ascii_upper s = map upper_char s"

text \<open>Truth value of a JSON value (\<^verbatim>\<open>not x\<close> is its negation).\<close>

fun truthy :: "json \<Rightarrow> bool" where
  "truthy JNull = False"
| "truthy (JBool b) = b"
| "truthy (JNum (PyInt i)) = (i \<noteq> 0)"
| "truthy (JNum (PyFloat d)) = (\<not> is_zero d)"
| "truthy (JStr s) = (s \<noteq> [])"
| "truthy (JList xs) = (xs \<noteq> [])"
| "truthy (JDict kvs) = (kvs \<noteq> [])"

text \<open>\<^verbatim>\<open>d.get(k, dflt)\<close> on a dict.\<close>

definition dict_get :: "(string \<times> json) list \<Rightarrow> string \<Rightarrow> json \<Rightarrow> json" where
  "dict_get d k dflt = (case map_of d k of None \<Rightarrow> dflt | Some v \<Rightarrow> v)"

text \<open>\<^verbatim>\<open>sub in s\<close> on strings.\<close>

fun is_substring :: "string \<Rightarrow> string \<Rightarrow> bool" where
  "is_substring sub [] = (sub = [])"
| "is_substring sub (c # cs) = (take (length sub) (c # cs) = sub \<or> is_substring sub cs)"

text \<open>
  \<^verbatim>\<open>data["info"]["rate"] if "info" in data and "rate" in data["info"] else None\<close>.
  The test \<^verbatim>\<open>"rate" in data["info"]\<close> is key membership on a dict, substring search on a
  string, element search on a list, and raises \<^verbatim>\<open>TypeError\<close> on \<^verbatim>\<open>None\<close>, a boolean or a
  number; indexing a string or a list by \<^verbatim>\<open>"rate"\<close> raises \<^verbatim>\<open>TypeError\<close>.
\<close>

definition lookup_rate :: "(string \<times> json) list \<Rightarrow> pyerror + json" where
  "lookup_rate data =
     (case map_of data ''info'' of
        None \<Rightarrow> Inr JNull
      | Some info \<Rightarrow>
         (case info of
            JDict i \<Rightarrow> (case map_of i ''rate'' of None \<Rightarrow> Inr JNull | Some r \<Rightarrow> Inr r)
          | JStr s \<Rightarrow> if is_substring ''rate'' s then Inl TypeError else Inr JNull
          | JList xs \<Rightarrow> if JStr ''rate'' \<in> set xs then Inl TypeError else Inr JNull
          | JNull \<Rightarrow> Inl TypeError
          | JBool b \<Rightarrow> Inl TypeError
          | JNum n \<Rightarrow> Inl TypeError))"

text \<open>
  \<^verbatim>\<open>round_result\<close> applied to a provider value: a number (a boolean is an \<^verbatim>\<open>int\<close>) is
  rounded, anything else makes \<^verbatim>\<open>abs\<close> raise \<^verbatim>\<open>TypeError\<close>.
\<close>

fun round_result_json :: "json \<Rightarrow> pyerror + pynum" where
  "round_result_json (JNum n) = Inr (round_result n)"
| "round_result_json (JBool b) = Inr (round_result (PyInt (if b then 1 else 0)))"
| "round_result_json JNull = Inl TypeError"
| "round_result_json (JStr s) = Inl TypeError"
| "round_result_json (JList xs) = Inl TypeError"
| "round_result_json (JDict kvs) = Inl TypeError"

text \<open>The handler of \<^verbatim>\<open>POST /currency/convert\<close>.\<close>

definition convert_currency ::
  "(string \<Rightarrow> string) \<Rightarrow> CurrencyConversionRequest \<Rightarrow> upstream
     \<Rightarrow> CurrencyConversionResponse outcome" where
  "convert_currency str_upper req up =
     (let from_curr = str_upper (from_currency req);
          to_curr = str_upper (to_currency req)
      in case up of
        Upstream_raised e \<Rightarrow> HTTPException 502 (Text (''Currency API error: '' @ e))
      | Upstream_json (JDict data) \<Rightarrow>
          if \<not> truthy (dict_get data ''success'' (JBool True)) then
            HTTPException 400
              (Fstr ''Currency conversion failed: ''
                 (dict_get data ''error'' (JStr ''Unknown error'')))
          else
            (case lookup_rate data of
               Inl e \<Rightarrow> Unhandled e
             | Inr rate_value \<Rightarrow>
                (let converted = dict_get data ''result'' JNull
                 in if converted = JNull \<or> rate_value = JNull then
                      HTTPException 502 (Text ''Currency API returned incomplete data'')
                    else
                      (case round_result_json converted of
                         Inl e \<Rightarrow> Unhandled e
                       | Inr c \<Rightarrow>
                          (case round_result_json rate_value of
                             Inl e \<Rightarrow> Unhandled e
                           | Inr r \<Rightarrow>
                              (case py_float c of
                                 Inl e \<Rightarrow> Unhandled e
                               | Inr cf \<Rightarrow>
                                  (case py_float r of
                                     Inl e \<Rightarrow> Unhandled e
                                   | Inr rf \<Rightarrow>
                                      Returned \<lparr>resp_from_currency = from_curr,
                                                resp_to_currency = to_curr,
                                                input_amount = amount req,
                                                converted_amount = cf,
                                                rate = rf\<rparr>))))))
      | Upstream_json other \<Rightarrow> Unhandled AttributeError)"

text \<open>
  The handler of \<^verbatim>\<open>GET /currency/symbols\<close>.  There is no \<^verbatim>\<open>try\<close> around the provider call:
  its exception escapes the handler.
\<close>

definition get_currency_symbols :: "upstream \<Rightarrow> string list outcome" where
  "get_currency_symbols up =
     (case up of
        Upstream_raised e \<Rightarrow> Unhandled (UpstreamException e)
      | Upstream_json (JDict data) \<Rightarrow>
         (case dict_get data ''symbols'' (JDict []) of
            JDict symbols \<Rightarrow> Returned (sort (map fst symbols))
          | other \<Rightarrow> Unhandled AttributeError)
      | Upstream_json other \<Rightarrow> Unhandled AttributeError)"

section \<open>Error handler\<close>

datatype field =
    FDetail detail
  | FErrors "validation_error list"
  | FStr string
  | FNum double

record http_response =
  status_code :: nat
  content :: "(string \<times> field) list"

text \<open>
  \<^verbatim>\<open>custom_http_exception_handler\<close>:
  \<^verbatim>\<open>JSONResponse(status_code=exc.status_code, content={"detail": exc.detail})\<close>.
\<close>

definition custom_http_exception_handler :: "nat \<Rightarrow> detail \<Rightarrow> http_response" where
  "custom_http_exception_handler code d = \<lparr>status_code = code, content = [(''detail'', FDetail d)]\<rparr>"

text \<open>
  The HTTP response of a request that did not end in a response model.  The program
  registers a handler for \<^verbatim>\<open>HTTPException\<close> only.  For the two other cases the framework's
  defaults apply: FastAPI answers a body that fails validation with status 422 and the list
  of validation errors, and an exception that escapes a handler with status 500.
\<close>

fun error_response :: "'a outcome \<Rightarrow> http_response option" where
  "error_response (Returned x) = None"
| "error_response (HTTPException code d) = Some (custom_http_exception_handler code d)"
| "error_response (RequestValidationError es) =
     Some \<lparr>status_code = 422, content = [(''detail'', FErrors es)]\<rparr>"
| "error_response (Unhandled e) = Some \<lparr>status_code = 500, content = []\<rparr>"

text \<open>
  The HTTP response of a request, whatever it ended in.  A response model is rendered as a
  JSON object of its fields with status 200.  The framework renders with
  \<^verbatim>\<open>json.dumps(..., allow_nan=False)\<close>, which raises \<^verbatim>\<open>ValueError\<close> on an infinity or a NaN:
  a response model that holds one is answered with status 500.
\<close>

fun json_compliant :: "field \<Rightarrow> bool" where
  "json_compliant (FNum d) = is_finite d"
| "json_compliant (FStr s) = True"
| "json_compliant (FDetail d) = True"
| "json_compliant (FErrors es) = True"

definition json_response :: "(string \<times> field) list \<Rightarrow> http_response" where
  "json_response kvs =
     (if list_all json_compliant (map snd kvs) then \<lparr>status_code = 200, content = kvs\<rparr>
      else \<lparr>status_code = 500, content = []\<rparr>)"

fun render :: "('a \<Rightarrow> (string \<times> field) list) \<Rightarrow> 'a outcome \<Rightarrow> http_response" where
  "render encode (Returned x) = json_response (encode x)"
| "render encode (HTTPException code d) = custom_http_exception_handler code d"
| "render encode (RequestValidationError es) =
     \<lparr>status_code = 422, content = [(''detail'', FErrors es)]\<rparr>"
| "render encode (Unhandled e) = \<lparr>status_code = 500, content = []\<rparr>"

definition unit_response_fields :: "UnitConversionResponse \<Rightarrow> (string \<times> field) list" where
  "unit_response_fields m =
     [(''category'', FStr (resp_category m)),
      (''from_unit'', FStr (resp_from_unit m)),
      (''to_unit'', FStr (resp_to_unit m)),
      (''input_value'', FNum (input_value m)),
      (''converted_value'', FNum (converted_value m))]"

text \<open>The endpoint \<^verbatim>\<open>POST /convert\<close>: validation, handler and rendering.\<close>

definition http_post_convert :: "UnitConversionRequest \<Rightarrow> http_response" where
  "http_post_convert body = render unit_response_fields (post_convert body)"

section \<open>The temperature formulas as the specification words them\<close>

text \<open>
  Normalise to Celsius: the value itself for celsius, \<open>(value - 32) * 5 / 9\<close> for
  fahrenheit, \<open>value - 273.15\<close> for kelvin.  Project Celsius to the target: the value itself
  for celsius, \<open>celsius * 9 / 5 + 32\<close> for fahrenheit, \<open>celsius + 273.15\<close> for kelvin.
\<close>

definition spec_to_celsius :: "string \<Rightarrow> double \<Rightarrow> double" where
  "spec_to_celsius u v =
     (if u = ''celsius'' then v
      else if u = ''fahrenheit'' then
        fdiv (fmul (fsub v (float_of_int 32)) (float_of_int 5)) (float_of_int 9)
      else fsub v (lit 273.15))"

definition spec_from_celsius :: "string \<Rightarrow> double \<Rightarrow> double" where
  "spec_from_celsius u c =
     (if u = ''celsius'' then c
      else if u = ''fahrenheit'' then
        fadd (fdiv (fmul c (float_of_int 9)) (float_of_int 5)) (float_of_int 32)
      else fadd c (lit 273.15))"

section \<open>The provider's answer as the specification words it\<close>





text \<open>An entry of a linear table: a scale factor that is a float and not a zero.\<close>

definition linear_entry :: "string \<times> double option \<Rightarrow> bool" where
  "linear_entry kv = (case snd kv of None \<Rightarrow> False | Some s \<Rightarrow> \<not> is_zero s)"

section \<open>Properties of the float model\<close>

lemma bit_length_bounds:
  "0 < n \<Longrightarrow> 2 ^ (bit_length n - 1) \<le> n \<and> n < 2 ^ bit_length n"
proof (induction n rule: bit_length.induct)
  case (1 n)
  show ?case
  proof (cases "n div 2 = 0")
    case True
    with "1.prems" have "n = 1" by presburger
    then show ?thesis by (simp add: bit_length.simps)
  next
    case False
    then have pos: "0 < n div 2" by simp
    define k where "k = bit_length (n div 2)"
    from "1.IH" "1.prems" pos have ih: "2 ^ (k - 1) \<le> n div 2" "n div 2 < 2 ^ k"
      by (simp_all add: k_def)
    have kpos: "0 < k" using pos by (simp add: k_def bit_length.simps)
    have bl: "bit_length n = Suc k"
      using "1.prems" by (subst bit_length.simps) (simp add: k_def)
    have "2 * 2 ^ (k - 1) \<le> n" using ih(1) by linarith
    moreover have "(2::nat) * 2 ^ (k - 1) = 2 ^ k"
      using kpos by (cases k) simp_all
    moreover have "n < 2 * 2 ^ k" using ih(2) by linarith
    ultimately show ?thesis by (simp add: bl)
  qed
qed

lemma bit_length_unique:
  assumes "2 ^ k \<le> n" "n < 2 ^ Suc k"
  shows "bit_length n = Suc k"
proof -
  have "(0::nat) < 2 ^ k" by simp
  with assms(1) have pos: "0 < n" by linarith
  from bit_length_bounds [OF pos]
  have b: "2 ^ (bit_length n - 1) \<le> n" "n < 2 ^ bit_length n" by simp_all
  have "(2::nat) ^ k < 2 ^ bit_length n" using assms(1) b(2) by linarith
  then have "k < bit_length n" by simp
  moreover have "(2::nat) ^ (bit_length n - 1) < 2 ^ Suc k" using assms(2) b(1) by linarith
  then have "bit_length n - 1 < Suc k" by (simp only: power_strict_increasing_iff one_less_numeral_iff semiring_norm)
  ultimately show ?thesis by linarith
qed


lemma nat_ge_pow2: "(2::int) ^ k \<le> x \<Longrightarrow> 2 ^ k \<le> nat x"
proof -
  assume h: "(2::int) ^ k \<le> x"
  have "(0::int) \<le> 2 ^ k" by simp
  with h have "0 \<le> x" by linarith
  then show ?thesis using h by (simp add: le_nat_iff)
qed

lemma nat_less_pow2: "x < 2 ^ Suc k \<Longrightarrow> nat x < 2 ^ Suc k"
  by (cases "0 \<le> x") (simp_all add: nat_less_iff)

lemma powi_le_pos: "2 powi e \<le> q \<Longrightarrow> 0 < (q::rat)"
  using zero_less_power_int [of "2::rat" e] by linarith

lemma ilog2_eqI:
  assumes lo: "2 powi e \<le> q" and hi: "q < 2 powi (e + 1)"
  shows "ilog2 q = e"
proof (cases "0 \<le> e")
  case True
  define k where "k = nat e"
  have e: "e = int k" using True by (simp add: k_def)
  have lo': "(2::rat) ^ k \<le> q" using lo by (simp add: e)
  have hi': "q < 2 ^ Suc k" using hi by (simp add: e power_int_add)
  have one: "1 \<le> q" using lo' one_le_power [of "2::rat" k] by linarith
  have "(2::int) ^ k \<le> \<lfloor>q\<rfloor>" using lo' by (simp add: le_floor_iff)
  then have a: "2 ^ k \<le> nat \<lfloor>q\<rfloor>" by (rule nat_ge_pow2)
  have "\<lfloor>q\<rfloor> < 2 ^ Suc k" using hi' by (simp add: floor_less_iff)
  then have b: "nat \<lfloor>q\<rfloor> < 2 ^ Suc k" by (rule nat_less_pow2)
  show ?thesis using one bit_length_unique [OF a b] by (simp add: ilog2_def e)
next
  case False
  define k where "k = nat (- e) - 1"
  have e: "e = - int (Suc k)" using False by (simp add: k_def)
  have qpos: "0 < q" using lo by (rule powi_le_pos)
  have e1: "e + 1 = - int k" using e by simp
  have "(2::rat) powi e = 1 / 2 ^ Suc k"
    unfolding e by (simp only: power_int_minus_divide power_int_of_nat)
  with lo have lo': "1 / 2 ^ Suc k \<le> q" by simp
  have "(2::rat) powi (e + 1) = 1 / 2 ^ k"
    unfolding e1 by (simp only: power_int_minus_divide power_int_of_nat)
  with hi have hi': "q < 1 / 2 ^ k" by simp
  have "1 / 2 ^ k \<le> (1::rat)" by (simp add: divide_le_eq)
  with hi' have lt1: "q < 1" by linarith
  have x1: "1 / q \<le> 2 ^ Suc k" using lo' qpos by (simp add: field_simps)
  have x2: "2 ^ k < 1 / q" using hi' qpos by (simp add: field_simps)
  have m1: "\<lceil>1 / q\<rceil> \<le> 2 ^ Suc k" using x1 by (simp add: ceiling_le_iff)
  have m2: "2 ^ k < \<lceil>1 / q\<rceil>" using x2 by (simp add: less_ceiling_iff)
  have "(2::int) ^ k \<le> \<lceil>1 / q\<rceil> - 1" using m2 by linarith
  then have a: "2 ^ k \<le> nat (\<lceil>1 / q\<rceil> - 1)" by (rule nat_ge_pow2)
  have "\<lceil>1 / q\<rceil> - 1 < 2 ^ Suc k" using m1 by linarith
  then have b: "nat (\<lceil>1 / q\<rceil> - 1) < 2 ^ Suc k" by (rule nat_less_pow2)
  show ?thesis using lt1 bit_length_unique [OF a b] by (simp add: ilog2_def e)
qed

lemma round_half_even_eqI:
  assumes "\<bar>y - of_int n\<bar> < 1 / 2"
  shows "round_half_even y = n"
proof -
  define f where "f = \<lfloor>y\<rfloor>"
  have f1: "of_int f \<le> y" and f2: "y < of_int f + 1" unfolding f_def by linarith+
  have n1: "y < of_int n + 1 / 2" and n2: "of_int n - 1 / 2 < y" using assms by linarith+
  consider "y - of_int f < 1 / 2" | "1 / 2 < y - of_int f" | "y - of_int f = 1 / 2" by linarith
  then show ?thesis
  proof cases
    case 1
    have "(of_int n :: rat) < of_int f + 1" using 1 n2 by linarith
    then have "n < f + 1" by linarith
    moreover have "(of_int f :: rat) < of_int n + 1" using f1 n1 by linarith
    then have "f < n + 1" by linarith
    ultimately have "f = n" by linarith
    then show ?thesis using 1 by (simp add: round_half_even_def Let_def f_def)
  next
    case 2
    have "(of_int f :: rat) < of_int n" using 2 n1 by linarith
    then have "f < n" by simp
    moreover have "(of_int n :: rat) < of_int f + 2" using f2 n2 by linarith
    then have "n < f + 2" by linarith
    ultimately have "f + 1 = n" by linarith
    then show ?thesis using 2 by (auto simp add: round_half_even_def Let_def f_def)
  next
    case 3
    have "(of_int f :: rat) < of_int n" using 3 n1 by linarith
    then have "f < n" by simp
    moreover have "(of_int n :: rat) < of_int f + 1" using 3 n2 by linarith
    then have "n < f + 1" by linarith
    ultimately show ?thesis by linarith
  qed
qed

lemma round_to_double_eqI:
  assumes lo: "2 powi e \<le> q" and hi: "q < 2 powi (e + 1)" and e: "- 1022 \<le> e"
    and n: "\<bar>q / 2 powi (e - 52) - of_int n\<bar> < 1 / 2"
    and r: "r = of_int n * 2 powi (e - 52)" and fin: "r < 2 ^ 1024"
  shows "round_to_double s q = Num s r"
proof -
  have "0 < q" using lo by (rule powi_le_pos)
  moreover have "ilog2 q = e" using lo hi by (rule ilog2_eqI)
  moreover have "max e (- 1022) = e" using e by simp
  moreover have "round_half_even (q / 2 powi (e - 52)) = n" using n by (rule round_half_even_eqI)
  ultimately show ?thesis using fin by (simp add: round_to_double_def Let_def r)
qed

lemma round_to_double_overflowI:
  assumes lo: "2 powi e \<le> q" and hi: "q < 2 powi (e + 1)" and e: "- 1022 \<le> e"
    and n: "\<bar>q / 2 powi (e - 52) - of_int n\<bar> < 1 / 2"
    and r: "r = of_int n * 2 powi (e - 52)" and inf: "2 ^ 1024 \<le> (r::rat)"
  shows "round_to_double s q = Infty s"
proof -
  have "0 < q" using lo by (rule powi_le_pos)
  moreover have "ilog2 q = e" using lo hi by (rule ilog2_eqI)
  moreover have "max e (- 1022) = e" using e by simp
  moreover have "round_half_even (q / 2 powi (e - 52)) = n" using n by (rule round_half_even_eqI)
  ultimately show ?thesis using inf by (simp add: round_to_double_def Let_def r)
qed

lemma ilog2_lower:
  assumes "0 < q"
  shows "2 powi (ilog2 q) \<le> q"
proof (cases "1 \<le> q")
  case True
  define n where "n = nat \<lfloor>q\<rfloor>"
  define k where "k = bit_length n - 1"
  have fl: "1 \<le> \<lfloor>q\<rfloor>" using True by (simp add: le_floor_iff)
  then have npos: "0 < n" by (simp add: n_def)
  have "(of_nat n :: rat) = of_int \<lfloor>q\<rfloor>" using fl by (simp add: n_def)
  then have nq: "of_nat n \<le> q" by simp
  have "2 ^ k \<le> n" using bit_length_bounds [OF npos] by (simp add: k_def)
  then have "(2::rat) ^ k \<le> of_nat n" by simp
  with nq have pk: "(2::rat) ^ k \<le> q" by linarith
  have "0 < bit_length n" using npos by (subst bit_length.simps) simp
  then have "int (bit_length n) - 1 = int k" by (simp add: k_def)
  moreover have "ilog2 q = int (bit_length n) - 1" using True by (simp add: ilog2_def n_def)
  ultimately have "ilog2 q = int k" by simp
  then show ?thesis using pk by simp
next
  case False
  define m where "m = nat (\<lceil>1 / q\<rceil> - 1)"
  define k where "k = bit_length m"
  have "1 < 1 / q" using False assms by simp
  then have "rat_of_int 1 < 1 / q" by simp
  then have c1: "1 < \<lceil>1 / q\<rceil>" by (simp only: less_ceiling_iff)
  then have "0 < \<lceil>1 / q\<rceil> - 1" by linarith
  then have mpos: "0 < m" unfolding m_def by (simp only: zero_less_nat_eq)
  have "m < 2 ^ k" using bit_length_bounds [OF mpos] by (simp add: k_def)
  then have "int m < 2 ^ k" using of_nat_less_iff [of m "2 ^ k", where ?'a = int] by simp
  moreover have "0 \<le> \<lceil>1 / q\<rceil> - 1" using c1 by linarith
  then have "int m = \<lceil>1 / q\<rceil> - 1" unfolding m_def by (rule nat_0_le)
  ultimately have "\<lceil>1 / q\<rceil> \<le> 2 ^ k" by linarith
  then have "1 / q \<le> 2 ^ k" by (simp add: ceiling_le_iff)
  then have "1 \<le> 2 ^ k * q" using assms by (simp add: pos_divide_le_eq)
  then have "1 / 2 ^ k \<le> q" by (simp add: pos_divide_le_eq mult.commute)
  moreover have "(2::rat) powi (- int k) = 1 / 2 ^ k"
    by (simp only: power_int_minus_divide power_int_of_nat)
  moreover have "ilog2 q = - int k" using False by (simp add: ilog2_def m_def k_def)
  ultimately show ?thesis by simp
qed

lemma round_half_even_ge_floor: "\<lfloor>y\<rfloor> \<le> round_half_even y"
  by (simp add: round_half_even_def Let_def)

lemma round_to_double_nonzero:
  assumes "2 powi (- 1022) \<le> q"
  shows "\<not> is_zero (round_to_double s q)"
proof -
  have qpos: "0 < q" using assms by (rule powi_le_pos)
  define E where "E = max (ilog2 q) (- 1022)"
  define u :: rat where "u = 2 powi (E - 52)"
  have upos: "0 < u" by (simp add: u_def)
  have "2 powi E \<le> q"
    using ilog2_lower [OF qpos] assms by (simp add: E_def max_def)
  moreover have "(2::rat) powi (E - 52) \<le> 2 powi E"
    by (rule power_int_increasing) simp_all
  ultimately have "u \<le> q" by (simp add: u_def)
  then have "1 \<le> q / u" using upos by (simp add: field_simps)
  then have "1 \<le> \<lfloor>q / u\<rfloor>" by (simp add: le_floor_iff)
  then have "1 \<le> round_half_even (q / u)"
    using round_half_even_ge_floor [of "q / u"] by linarith
  then have "0 < (of_int (round_half_even (q / u)) :: rat)" by simp
  then have "0 < of_int (round_half_even (q / u)) * u" using upos by simp
  then have nz: "of_int (round_half_even (q / u)) * u \<noteq> 0" by linarith
  have "round_to_double s q =
      (if 2 ^ 1024 \<le> of_int (round_half_even (q / u)) * u then Infty s
       else Num s (of_int (round_half_even (q / u)) * u))"
    using qpos by (simp add: round_to_double_def Let_def E_def [symmetric] u_def [symmetric])
  then show ?thesis using nz by (simp del: mult_eq_0_iff)
qed

lemma lit_nonzero: "2 powi (- 1022) \<le> q \<Longrightarrow> \<not> is_zero (lit q)"
  unfolding lit_def by (rule round_to_double_nonzero)

lemma fneg_round_to_double: "fneg (round_to_double s q) = round_to_double (\<not> s) q"
  by (simp add: round_to_double_def Let_def)

lemma bit_length_pos: "0 < n \<Longrightarrow> 0 < bit_length n"
  by (subst bit_length.simps) simp

lemma round_half_even_of_int: "round_half_even (of_int z) = z"
  by (rule round_half_even_eqI) simp

lemma round_to_double_int:
  assumes pos: "0 < i" and small: "i < 2 ^ 53"
  shows "round_to_double s (of_int i) = Num s (of_int i)"
proof -
  define q :: rat where "q = of_int i"
  define e where "e = ilog2 q"
  have q1: "1 \<le> q" using pos by (simp add: q_def)
  then have qpos: "0 < q" by linarith
  have "0 < nat \<lfloor>q\<rfloor>" using q1 by simp
  then have "0 < bit_length (nat \<lfloor>q\<rfloor>)" by (rule bit_length_pos)
  then have e0: "0 \<le> e" using q1 by (simp add: e_def ilog2_def)
  have lo: "2 powi e \<le> q" unfolding e_def using qpos by (rule ilog2_lower)
  have q53: "q < 2 powi 53" using small by (simp add: q_def)
  have e52: "e \<le> 52"
  proof (rule ccontr)
    assume "\<not> e \<le> 52"
    then have "53 \<le> e" by linarith
    then have "(2::rat) powi 53 \<le> 2 powi e" by (intro power_int_increasing) simp_all
    with lo q53 show False by linarith
  qed
  define k where "k = nat (52 - e)"
  have ek: "e - 52 = - int k" using e52 by (simp add: k_def)
  have u: "(2::rat) powi (e - 52) = 1 / 2 ^ k"
    unfolding ek by (simp only: power_int_minus_divide power_int_of_nat)
  have "q / (1 / 2 ^ k) = of_int (i * 2 ^ k)" by (simp add: q_def)
  then have rhe: "round_half_even (q / (1 / 2 ^ k)) = i * 2 ^ k"
    by (simp only: round_half_even_of_int)
  have r: "of_int (i * 2 ^ k) * (1 / 2 ^ k) = q" by (simp add: q_def)
  have "q < 2 ^ 1024"
  proof -
    have "(2::rat) powi 53 \<le> 2 powi 1024" by (intro power_int_increasing) simp_all
    with q53 show ?thesis by simp
  qed
  then have fin: "\<not> 2 ^ 1024 \<le> q" by linarith
  have mx: "max e (- 1022) = e" using e0 by simp
  have "round_to_double s q = Num s q"
    unfolding round_to_double_def Let_def e_def [symmetric] mx u rhe r
    using qpos fin by simp
  then show ?thesis by (simp add: q_def)
qed

lemma round_to_double_numeral:
  "numeral k < (2::int) ^ 53 \<Longrightarrow> round_to_double s (numeral k) = Num s (numeral k)"
  using round_to_double_int [of "numeral k" s] by simp

lemma float_of_int_numeral:
  "numeral k < (2::int) ^ 53 \<Longrightarrow> float_of_int (numeral k) = Num False (numeral k)"
  by (simp add: float_of_int_def round_to_double_numeral)

lemma float_of_int_0: "float_of_int 0 = Num False 0"
  by (simp add: float_of_int_def round_to_double_def)


lemma lit_numeral:
  "numeral k < (2::int) ^ 53 \<Longrightarrow> lit (numeral k) = Num False (numeral k)"
  by (simp add: lit_def round_to_double_numeral)

lemma lit_1: "lit 1 = Num False 1"
  using round_to_double_int [of 1 False] by (simp add: lit_def)

lemma float_of_int_1: "float_of_int 1 = Num False 1"
  using round_to_double_int [of 1 False] by (simp add: float_of_int_def)

section \<open>Linear conversions\<close>

lemma length_units_linear: "list_all linear_entry length_units"
  by (simp add: length_units_def linear_entry_def lit_nonzero)

lemma weight_units_linear: "list_all linear_entry weight_units"
  by (simp add: weight_units_def linear_entry_def lit_nonzero)

lemma speed_units_linear: "list_all linear_entry speed_units"
  by (simp add: speed_units_def linear_entry_def lit_nonzero)

lemma linear_lookup:
  assumes "list_all linear_entry us" and "k \<in> set (map fst us)"
  shows "\<exists>s. map_of us k = Some (Some s) \<and> \<not> is_zero s"
proof -
  from assms(2) obtain y where y: "map_of us k = Some y"
    by (cases "map_of us k") (auto simp: map_of_eq_None_iff)
  then have "(k, y) \<in> set us" by (rule map_of_SomeD)
  with assms(1) have "linear_entry (k, y)" by (simp add: list_all_iff)
  then obtain s where "y = Some s" "\<not> is_zero s"
    by (cases y) (simp_all add: linear_entry_def)
  with y show ?thesis by simp
qed

lemma convert_length_linear:
  assumes "map_of length_units from_unit = Some (Some sf)"
    and "map_of length_units to_unit = Some (Some st)" and "\<not> is_zero st"
  shows "convert_length v from_unit to_unit = Inr (fdiv (fmul v sf) st)"
  using assms
  by (simp add: convert_length_def getitem_def UNIT_CATEGORIES_def py_truediv_def)


lemma convert_weight_linear:
  assumes "map_of weight_units from_unit = Some (Some sf)"
    and "map_of weight_units to_unit = Some (Some st)" and "\<not> is_zero st"
  shows "convert_weight v from_unit to_unit = Inr (fdiv (fmul v sf) st)"
  using assms
  by (simp add: convert_weight_def getitem_def UNIT_CATEGORIES_def py_truediv_def)

lemma convert_speed_linear:
  assumes "map_of speed_units from_unit = Some (Some sf)"
    and "map_of speed_units to_unit = Some (Some st)" and "\<not> is_zero st"
  shows "convert_speed v from_unit to_unit = Inr (fdiv (fmul v sf) st)"
  using assms
  by (simp add: convert_speed_def getitem_def UNIT_CATEGORIES_def py_truediv_def)

lemma linear_conversion:
  assumes cat: "(conv, us) \<in> set [(convert_length, length_units), (convert_weight, weight_units),
                    (convert_speed, speed_units)]"
    and f: "from_unit \<in> set (map fst us)" and t: "to_unit \<in> set (map fst us)"
  shows "\<exists>sf st. map_of us from_unit = Some (Some sf) \<and> map_of us to_unit = Some (Some st)
           \<and> \<not> is_zero st \<and> conv v from_unit to_unit = Inr (fdiv (fmul v sf) st)"
proof -
  from cat consider "conv = convert_length" "us = length_units"
    | "conv = convert_weight" "us = weight_units"
    | "conv = convert_speed" "us = speed_units" by auto
  then show ?thesis
  proof cases
    case 1
    from linear_lookup [OF length_units_linear] f t 1
    obtain sf st where "map_of us from_unit = Some (Some sf)"
      "map_of us to_unit = Some (Some st)" "\<not> is_zero st" by blast
    then show ?thesis using 1 convert_length_linear by blast
  next
    case 2
    from linear_lookup [OF weight_units_linear] f t 2
    obtain sf st where "map_of us from_unit = Some (Some sf)"
      "map_of us to_unit = Some (Some st)" "\<not> is_zero st" by blast
    then show ?thesis using 2 convert_weight_linear by blast
  next
    case 3
    from linear_lookup [OF speed_units_linear] f t 3
    obtain sf st where "map_of us from_unit = Some (Some sf)"
      "map_of us to_unit = Some (Some st)" "\<not> is_zero st" by blast
    then show ?thesis using 3 convert_speed_linear by blast
  qed
qed

text \<open>
  Claim C1.  For every linear category (length, weight, speed), every pair of units
  \<open>from_unit\<close> and \<open>to_unit\<close> present in that category's table, and every value \<open>v\<close>,
  the conversion function returns exactly \<open>v * scale[from_unit] / scale[to_unit]\<close>: the
  product is formed first and then divided, both in float arithmetic, and no exception is
  raised.
\<close>

theorem C1_linear_conversion_formula:
  assumes "(conv, us) \<in> set [(convert_length, length_units), (convert_weight, weight_units),
                    (convert_speed, speed_units)]"
    and "from_unit \<in> set (map fst us)" and "to_unit \<in> set (map fst us)"
  shows "\<exists>sf st. map_of us from_unit = Some (Some sf) \<and> map_of us to_unit = Some (Some st)
           \<and> conv v from_unit to_unit = Inr (fdiv (fmul v sf) st)"
  using linear_conversion [OF assms, of v] by blast

theorem C1_linear_conversion_formula_witness:
  "(convert_length, length_units) \<in> set [(convert_length, length_units),
       (convert_weight, weight_units), (convert_speed, speed_units)]
   \<and> ''kilometers'' \<in> set (map fst length_units) \<and> ''meters'' \<in> set (map fst length_units)
   \<and> convert_length (float_of_int 1) ''kilometers'' ''meters''
       = Inr (fdiv (fmul (float_of_int 1) (lit 1000.0)) (lit 1.0))
   \<and> convert_length (float_of_int 1) ''kilometers'' ''meters'' = Inr (float_of_int 1000)"
proof -
  have m: "''kilometers'' \<in> set (map fst length_units)" "''meters'' \<in> set (map fst length_units)"
    by (simp_all add: length_units_def)
  have c: "(convert_length, length_units) \<in> set [(convert_length, length_units),
       (convert_weight, weight_units), (convert_speed, speed_units)]" by simp
  from C1_linear_conversion_formula [OF c m, of "float_of_int 1"]
  have e: "convert_length (float_of_int 1) ''kilometers'' ''meters''
       = Inr (fdiv (fmul (float_of_int 1) (lit 1000.0)) (lit 1.0))"
    by (auto simp: length_units_def)
  have "fdiv (fmul (float_of_int 1) (lit 1000.0)) (lit 1.0) = float_of_int 1000"
    by (simp add: lit_numeral lit_1 float_of_int_1 float_of_int_numeral round_to_double_numeral)
  with e m c show ?thesis by simp
qed

section \<open>Temperature conversion\<close>

lemma lit_273_15: "lit 273.15 = Num False (2402652809016115 / 8796093022208)"
  unfolding lit_def
  by (rule round_to_double_eqI [where e = 8 and n = 4805305618032230]) simp_all

lemma round_273_15:
  "round_to_double False (2402652809016115 / 8796093022208) = Num False (2402652809016115 / 8796093022208)"
  by (rule round_to_double_eqI [where e = 8 and n = 4805305618032230]) simp_all

lemma small_ints_nonzero: "\<not> is_zero (float_of_int 9)" "\<not> is_zero (float_of_int 5)"
  by (simp_all add: float_of_int_numeral)

lemma convert_temperature_known:
  assumes "from_unit \<in> set [''celsius'', ''fahrenheit'', ''kelvin'']"
    and "to_unit \<in> set [''celsius'', ''fahrenheit'', ''kelvin'']"
    and "from_unit \<noteq> to_unit"
  shows "convert_temperature v from_unit to_unit
           = Inr (spec_from_celsius to_unit (spec_to_celsius from_unit v))"
  using assms
  by (auto simp: convert_temperature_def spec_from_celsius_def spec_to_celsius_def
        py_truediv_def small_ints_nonzero)

lemma celsius_0_to_fahrenheit:
  "convert_temperature (float_of_int 0) ''celsius'' ''fahrenheit'' = Inr (float_of_int 32)"
  by (simp add: convert_temperature_def py_truediv_def float_of_int_0 float_of_int_numeral
        round_to_double_numeral sval_def round_to_double_def [of _ 0])

lemma fahrenheit_212_to_celsius:
  "convert_temperature (float_of_int 212) ''fahrenheit'' ''celsius'' = Inr (float_of_int 100)"
  by (simp add: convert_temperature_def py_truediv_def float_of_int_numeral fsub_def
        round_to_double_numeral sval_def)

lemma celsius_0_to_kelvin:
  "convert_temperature (float_of_int 0) ''celsius'' ''kelvin'' = Inr (lit 273.15)"
  unfolding convert_temperature_def lit_273_15 float_of_int_0
  by (simp add: sval_def round_273_15)

text \<open>
  Claim C2.  For every value \<open>v\<close> and every pair of distinct units among celsius,
  fahrenheit and kelvin, \<^verbatim>\<open>convert_temperature\<close> normalises \<open>v\<close> to Celsius and then
  projects Celsius to the target, with the formulas of the specification; and the three
  sample conversions give \<open>32\<close>, \<open>100\<close> and \<open>273.15\<close>.
\<close>

theorem C2_convert_temperature_formulas:
  "(from_unit \<in> set [''celsius'', ''fahrenheit'', ''kelvin'']
      \<and> to_unit \<in> set [''celsius'', ''fahrenheit'', ''kelvin''] \<and> from_unit \<noteq> to_unit
      \<longrightarrow> convert_temperature v from_unit to_unit
            = Inr (spec_from_celsius to_unit (spec_to_celsius from_unit v)))
   \<and> convert_temperature (float_of_int 0) ''celsius'' ''fahrenheit'' = Inr (float_of_int 32)
   \<and> convert_temperature (float_of_int 212) ''fahrenheit'' ''celsius'' = Inr (float_of_int 100)
   \<and> convert_temperature (float_of_int 0) ''celsius'' ''kelvin'' = Inr (lit 273.15)"
  using convert_temperature_known [of from_unit to_unit v]
    celsius_0_to_fahrenheit fahrenheit_212_to_celsius celsius_0_to_kelvin
  by blast

theorem C2_convert_temperature_formulas_witness:
  "''fahrenheit'' \<in> set [''celsius'', ''fahrenheit'', ''kelvin'']
   \<and> ''kelvin'' \<in> set [''celsius'', ''fahrenheit'', ''kelvin''] \<and> ''fahrenheit'' \<noteq> ''kelvin''
   \<and> convert_temperature (float_of_int 212) ''fahrenheit'' ''kelvin''
        = Inr (spec_from_celsius ''kelvin'' (spec_to_celsius ''fahrenheit'' (float_of_int 212)))"
  using C2_convert_temperature_formulas [of "''fahrenheit''" "''kelvin''" "float_of_int 212"]
  by simp

section \<open>The rounding policy\<close>

lemma lit_1e6: "lit 0.000001 = Num False (4722366482869645 / 4722366482869645213696)"
  unfolding lit_def
  by (rule round_to_double_eqI [where e = "- 20" and n = 4722366482869645]) simp_all

lemma lit_1e7: "lit 0.0000001 = Num False (944473296573929 / 9444732965739290427392)"
  unfolding lit_def
  by (rule round_to_double_eqI [where e = "- 24" and n = 7555786372591432]) simp_all

lemma round_half: "round_to_double False (1 / 2) = Num False (1 / 2)"
  by (rule round_to_double_eqI [where e = "- 1" and n = 4503599627370496]) simp_all

lemma lit_half: "lit 0.5 = Num False (1 / 2)"
  unfolding lit_def
  by (rule round_to_double_eqI [where e = "- 1" and n = 4503599627370496]) simp_all

lemma round_half_even_numeral: "round_half_even (numeral k) = numeral k"
  using round_half_even_of_int [of "numeral k"] by simp

lemma py_ge_not_lt: "py_ge x (Num False a) \<Longrightarrow> b \<le> a \<Longrightarrow> \<not> py_lt x (Num False b)"
proof (cases x)
  case (PyInt i)
  assume "py_ge x (Num False a)" "b \<le> a"
  with PyInt show ?thesis by (simp add: sval_def)
next
  case (PyFloat d)
  assume "py_ge x (Num False a)" "b \<le> a"
  with PyFloat show ?thesis by (cases d) (simp_all add: sval_def)
qed

lemma round_result_float_small:
  "round_result (PyFloat (lit 0.0000001)) = PyInt 0"
  unfolding round_result_def lit_1e7 lit_1e6 by (simp add: sval_def)

lemma round_result_half:
  "round_result (PyFloat (lit 0.5)) = PyFloat (lit 0.5)"
  unfolding round_result_def lit_half lit_1e6
  by (simp add: sval_def float_of_int_1 round_half_even_numeral round_half)

lemma round_result_12345:
  "round_result (PyFloat (float_of_int 12345)) = PyFloat (float_of_int 12345)"
  unfolding round_result_def lit_1e6
  by (simp add: sval_def float_of_int_1 float_of_int_numeral round_half_even_numeral
        round_to_double_numeral)

lemma round_result_50:
  "round_result (PyFloat (float_of_int 50)) = PyFloat (float_of_int 50)"
  unfolding round_result_def lit_1e6
  by (simp add: sval_def float_of_int_1 float_of_int_numeral round_half_even_numeral
        round_to_double_numeral)

lemma py_abs_neg: "py_abs (py_neg v) = py_abs v"
proof (cases v)
  case (PyInt i) then show ?thesis by simp
next
  case (PyFloat d) then show ?thesis by (cases d) simp_all
qed

lemma float_round_neg: "float_round (fneg d) n = fneg (float_round d n)"
  by (cases d) (simp_all add: fneg_round_to_double)

lemma py_round_neg: "py_round (py_neg v) n = py_neg (py_round v n)"
  by (cases v) (simp_all add: float_round_neg)

lemma round_result_neg: "round_result (py_neg v) = py_neg (round_result v)"
  by (simp add: round_result_def py_abs_neg py_round_neg)

lemma feq_refl: "d \<noteq> NaN \<Longrightarrow> feq d d"
  by (cases d) simp_all

lemma py_eq_refl: "x \<noteq> PyFloat NaN \<Longrightarrow> py_eq x x"
  by (cases x) (simp_all add: feq_refl)

lemma round_to_double_not_NaN: "round_to_double s q \<noteq> NaN"
  by (simp add: round_to_double_def Let_def)

lemma float_round_NaN: "float_round d n = NaN \<Longrightarrow> d = NaN"
  by (cases d) (simp_all add: round_to_double_not_NaN)

lemma py_round_NaN: "py_round v n = PyFloat NaN \<Longrightarrow> v = PyFloat NaN"
  by (cases v) (auto dest: float_round_NaN)

lemma round_result_NaN: "round_result v = PyFloat NaN \<Longrightarrow> v = PyFloat NaN"
  by (auto simp: round_result_def split: if_splits dest: py_round_NaN)

lemma py_neg_NaN: "py_neg v = PyFloat NaN \<Longrightarrow> v = PyFloat NaN"
proof (cases v)
  case (PyInt i) then show "py_neg v = PyFloat NaN \<Longrightarrow> v = PyFloat NaN" by simp
next
  case (PyFloat d)
  then show "py_neg v = PyFloat NaN \<Longrightarrow> v = PyFloat NaN" by (cases d) simp_all
qed

lemma round_result_of_NaN: "round_result (PyFloat NaN) = PyFloat NaN"
  by (simp add: round_result_def)

text \<open>
  Claim C10, as the code has it.  For every number \<open>v\<close>, int or float, other than NaN,
  \<^verbatim>\<open>round_result(-v) == -round_result(v)\<close>; in the first branch both sides are the int \<open>0\<close>.
  For every \<open>v\<close>, NaN too, the two sides are the same value.
\<close>

theorem C10_round_result_negation:
  "(v \<noteq> PyFloat NaN \<longrightarrow> py_eq (round_result (py_neg v)) (py_neg (round_result v)))
   \<and> round_result (py_neg v) = py_neg (round_result v)"
proof -
  have "py_eq (round_result (py_neg v)) (round_result (py_neg v))" if "v \<noteq> PyFloat NaN"
  proof (rule py_eq_refl)
    show "round_result (py_neg v) \<noteq> PyFloat NaN"
      using that round_result_NaN [of "py_neg v"] py_neg_NaN [of v] by blast
  qed
  then show ?thesis by (simp add: round_result_neg)
qed

theorem C10_round_result_negation_witness:
  "PyFloat (lit 0.5) \<noteq> PyFloat NaN
   \<and> py_eq (round_result (py_neg (PyFloat (lit 0.5)))) (py_neg (round_result (PyFloat (lit 0.5))))
   \<and> PyInt 3 \<noteq> PyFloat NaN
   \<and> py_eq (round_result (py_neg (PyInt 3))) (py_neg (round_result (PyInt 3)))"
proof -
  have h: "PyFloat (lit 0.5) \<noteq> PyFloat NaN" unfolding lit_half by simp
  have h2: "PyInt 3 \<noteq> PyFloat NaN" by simp
  note T = C10_round_result_negation [THEN conjunct1]
  show ?thesis by (intro conjI h h2 mp [OF T h] mp [OF T h2])
qed

text \<open>
  Claim C10 as stated, for every value, fails at NaN: both sides are NaN, and \<^verbatim>\<open>==\<close> is false
  on NaN.
\<close>

theorem C10_nan_counterexample:
  "round_result (py_neg (PyFloat NaN)) = PyFloat NaN
   \<and> py_neg (round_result (PyFloat NaN)) = PyFloat NaN
   \<and> \<not> py_eq (round_result (py_neg (PyFloat NaN))) (py_neg (round_result (PyFloat NaN)))"
  by (simp add: round_result_of_NaN)

lemma threshold_values:
  "float_of_int 100 = Num False 100" "float_of_int 10000 = Num False 10000"
  by (simp_all add: float_of_int_numeral)

lemma lit_1234_5678: "lit 1234.5678 = Num False (5429686605511341 / 4398046511104)"
  unfolding lit_def
  by (rule round_to_double_eqI [where e = 10 and n = 5429686605511341]) simp_all

lemma lit_1234_57: "lit 1234.57 = Num False (5429696281213665 / 4398046511104)"
  unfolding lit_def
  by (rule round_to_double_eqI [where e = 10 and n = 5429696281213665]) simp_all

lemma float_round_1234_5678:
  "float_round (Num False (5429686605511341 / 4398046511104)) 2
     = Num False (5429696281213665 / 4398046511104)"
proof -
  have "round_half_even (5429686605511341 / 4398046511104 * 10 ^ 2) = 123457"
    by (rule round_half_even_eqI) simp
  moreover have "round_to_double False (123457 / 10 ^ 2)
      = Num False (5429696281213665 / 4398046511104)"
    by (rule round_to_double_eqI [where e = 10 and n = 5429696281213665]) simp_all
  ultimately show ?thesis by (simp only: float_round.simps of_int_numeral)
qed

text \<open>
  Claim C3.  \<^verbatim>\<open>round_result\<close> follows the piecewise rule on \<open>|value|\<close>: the int \<open>0\<close> below
  \<open>1e-6\<close>, then \<^verbatim>\<open>round\<close> to 6, 4, 2 and 1 decimal places on the ranges that begin at
  \<open>1e-6\<close>, \<open>1\<close>, \<open>100\<close> and \<open>10000\<close>; and the four sample values come out as \<open>0\<close>, \<open>0.5\<close>,
  \<open>12345.0\<close> and \<open>50.0\<close>.  The thresholds are the floats that the literals denote and the
  comparisons are those of Python, so NaN falls in none of the ranges.
\<close>

theorem C3_round_result_piecewise:
  "(py_lt (py_abs v) (lit 0.000001) \<longrightarrow> round_result v = PyInt 0)
   \<and> (py_ge (py_abs v) (lit 0.000001) \<and> py_lt (py_abs v) (float_of_int 1)
        \<longrightarrow> round_result v = py_round v 6)
   \<and> (py_ge (py_abs v) (float_of_int 1) \<and> py_lt (py_abs v) (float_of_int 100)
        \<longrightarrow> round_result v = py_round v 4)
   \<and> (py_ge (py_abs v) (float_of_int 100) \<and> py_lt (py_abs v) (float_of_int 10000)
        \<longrightarrow> round_result v = py_round v 2)
   \<and> (py_ge (py_abs v) (float_of_int 10000) \<longrightarrow> round_result v = py_round v 1)
   \<and> round_result (PyFloat (lit 0.0000001)) = PyInt 0
   \<and> round_result (PyFloat (lit 0.5)) = PyFloat (lit 0.5)
   \<and> round_result (PyFloat (float_of_int 12345)) = PyFloat (float_of_int 12345)
   \<and> round_result (PyFloat (float_of_int 50)) = PyFloat (float_of_int 50)"
proof -
  let ?a = "py_abs v"
  have n6: "\<not> py_lt ?a (lit 0.000001)" if "py_ge ?a (lit 0.000001)"
    using that unfolding lit_1e6 by (rule py_ge_not_lt) simp
  have n6': "\<not> py_lt ?a (lit 0.000001)" if "py_ge ?a (float_of_int 1)"
    using that unfolding lit_1e6 float_of_int_1 by (rule py_ge_not_lt) simp
  have n1: "\<not> py_lt ?a (float_of_int 1)" if "py_ge ?a (float_of_int 1)"
    using that unfolding float_of_int_1 by (rule py_ge_not_lt) simp
  have m100: "\<not> py_lt ?a (lit 0.000001) \<and> \<not> py_lt ?a (float_of_int 1)
      \<and> \<not> py_lt ?a (float_of_int 100)" if "py_ge ?a (float_of_int 100)"
    using that unfolding lit_1e6 float_of_int_1 threshold_values
    by (auto dest: py_ge_not_lt [where b = "4722366482869645 / 4722366482869645213696"]
          py_ge_not_lt [where b = 1] py_ge_not_lt [where b = 100])
  have m10000: "\<not> py_lt ?a (lit 0.000001) \<and> \<not> py_lt ?a (float_of_int 1)
      \<and> \<not> py_lt ?a (float_of_int 100) \<and> \<not> py_lt ?a (float_of_int 10000)"
    if "py_ge ?a (float_of_int 10000)"
    using that unfolding lit_1e6 float_of_int_1 threshold_values
    by (auto dest: py_ge_not_lt [where b = "4722366482869645 / 4722366482869645213696"]
          py_ge_not_lt [where b = 1] py_ge_not_lt [where b = 100]
          py_ge_not_lt [where b = 10000])
  have b1: "py_lt ?a (lit 0.000001) \<longrightarrow> round_result v = PyInt 0"
    by (simp add: round_result_def)
  have b2: "py_ge ?a (lit 0.000001) \<and> py_lt ?a (float_of_int 1)
      \<longrightarrow> round_result v = py_round v 6"
    using n6 by (simp add: round_result_def)
  have b3: "py_ge ?a (float_of_int 1) \<and> py_lt ?a (float_of_int 100)
      \<longrightarrow> round_result v = py_round v 4"
    using n6' n1 by (simp add: round_result_def)
  have b4: "py_ge ?a (float_of_int 100) \<and> py_lt ?a (float_of_int 10000)
      \<longrightarrow> round_result v = py_round v 2"
    using m100 by (simp add: round_result_def)
  have b5: "py_ge ?a (float_of_int 10000) \<longrightarrow> round_result v = py_round v 1"
    using m10000 by (simp add: round_result_def)
  show ?thesis
    using b1 b2 b3 b4 b5 round_result_float_small round_result_half round_result_12345
      round_result_50 by blast
qed

theorem C3_round_result_piecewise_witness:
  "py_lt (py_abs (PyFloat (lit 0.0000001))) (lit 0.000001)
   \<and> round_result (PyFloat (lit 0.0000001)) = PyInt 0
   \<and> py_ge (py_abs (PyFloat (lit 0.5))) (lit 0.000001)
   \<and> py_lt (py_abs (PyFloat (lit 0.5))) (float_of_int 1)
   \<and> round_result (PyFloat (lit 0.5)) = py_round (PyFloat (lit 0.5)) 6
   \<and> py_ge (py_abs (PyFloat (float_of_int 50))) (float_of_int 1)
   \<and> py_lt (py_abs (PyFloat (float_of_int 50))) (float_of_int 100)
   \<and> round_result (PyFloat (float_of_int 50)) = py_round (PyFloat (float_of_int 50)) 4
   \<and> py_ge (py_abs (PyFloat (lit 1234.5678))) (float_of_int 100)
   \<and> py_lt (py_abs (PyFloat (lit 1234.5678))) (float_of_int 10000)
   \<and> round_result (PyFloat (lit 1234.5678)) = py_round (PyFloat (lit 1234.5678)) 2
   \<and> py_round (PyFloat (lit 1234.5678)) 2 = PyFloat (lit 1234.57)
   \<and> py_ge (py_abs (PyInt (- 20000))) (float_of_int 10000)
   \<and> round_result (PyInt (- 20000)) = py_round (PyInt (- 20000)) 1
   \<and> py_round (PyInt (- 20000)) 1 = PyInt (- 20000)"
proof -
  have h1: "py_lt (py_abs (PyFloat (lit 0.0000001))) (lit 0.000001)"
    unfolding lit_1e7 lit_1e6 by (simp add: sval_def)
  have h2: "py_ge (py_abs (PyFloat (lit 0.5))) (lit 0.000001)"
    "py_lt (py_abs (PyFloat (lit 0.5))) (float_of_int 1)"
    unfolding lit_half lit_1e6 float_of_int_1 by (simp_all add: sval_def)
  have h3: "py_ge (py_abs (PyFloat (float_of_int 50))) (float_of_int 1)"
    "py_lt (py_abs (PyFloat (float_of_int 50))) (float_of_int 100)"
    unfolding float_of_int_1 by (simp_all add: sval_def float_of_int_numeral)
  have h4: "py_ge (py_abs (PyFloat (lit 1234.5678))) (float_of_int 100)"
    "py_lt (py_abs (PyFloat (lit 1234.5678))) (float_of_int 10000)"
    unfolding lit_1234_5678 by (simp_all add: sval_def float_of_int_numeral)
  have r4: "py_round (PyFloat (lit 1234.5678)) 2 = PyFloat (lit 1234.57)"
    unfolding lit_1234_5678 lit_1234_57 by (simp only: py_round.simps float_round_1234_5678)
  have h5: "py_ge (py_abs (PyInt (- 20000))) (float_of_int 10000)"
    by (simp add: sval_def float_of_int_numeral)
  have r5: "py_round (PyInt (- 20000)) 1 = PyInt (- 20000)" by simp
  note T = C3_round_result_piecewise
  have c1: "round_result (PyFloat (lit 0.0000001)) = PyInt 0"
    by (rule mp [OF T [THEN conjunct1] h1])
  have c2: "round_result (PyFloat (lit 0.5)) = py_round (PyFloat (lit 0.5)) 6"
    by (rule mp [OF T [THEN conjunct2, THEN conjunct1] conjI [OF h2]])
  have c3: "round_result (PyFloat (float_of_int 50)) = py_round (PyFloat (float_of_int 50)) 4"
    by (rule mp [OF T [THEN conjunct2, THEN conjunct2, THEN conjunct1] conjI [OF h3]])
  have c4: "round_result (PyFloat (lit 1234.5678)) = py_round (PyFloat (lit 1234.5678)) 2"
    by (rule mp [OF T [THEN conjunct2, THEN conjunct2, THEN conjunct2, THEN conjunct1]
          conjI [OF h4]])
  have c5: "round_result (PyInt (- 20000)) = py_round (PyInt (- 20000)) 1"
    by (rule mp [OF T [THEN conjunct2, THEN conjunct2, THEN conjunct2, THEN conjunct2,
          THEN conjunct1] h5])
  show ?thesis
    by (intro conjI h1 h2 h3 h4 h5 r4 r5 c1 c2 c3 c4 c5)
qed

section \<open>Converting a unit to itself\<close>

lemma lit_0_3048: "lit 0.3048 = Num False (5490788665690109 / 18014398509481984)"
  unfolding lit_def
  by (rule round_to_double_eqI [where e = "- 2" and n = 5490788665690109]) simp_all

lemma fmul_7_feet:
  "fmul (Num False 7) (Num False (5490788665690109 / 18014398509481984))
     = Num False (4804440082478845 / 2251799813685248)"
  apply simp
  by (rule round_to_double_eqI [where e = 1 and n = 4804440082478845]) simp_all

lemma fdiv_7_feet:
  "fdiv (Num False (4804440082478845 / 2251799813685248))
        (Num False (5490788665690109 / 18014398509481984))
     = Num False (7881299347898367 / 1125899906842624)"
  apply simp
  by (rule round_to_double_eqI [where e = 2 and n = 7881299347898367]) simp_all

lemma float_of_int_7: "float_of_int 7 = Num False 7"
  by (simp add: float_of_int_numeral)

lemma convert_7_feet:
  "convert_length (float_of_int 7) ''feet'' ''feet''
     = Inr (Num False (7881299347898367 / 1125899906842624))"
proof -
  have m: "map_of length_units ''feet'' = Some (Some (lit 0.3048))"
    by (simp add: length_units_def)
  have nz: "\<not> is_zero (lit 0.3048)" by (rule lit_nonzero) simp
  have "convert_length (float_of_int 7) ''feet'' ''feet''
      = Inr (fdiv (fmul (float_of_int 7) (lit 0.3048)) (lit 0.3048))"
    by (rule convert_length_linear [OF m m nz])
  also have "fmul (float_of_int 7) (lit 0.3048)
      = Num False (4804440082478845 / 2251799813685248)"
    unfolding lit_0_3048 float_of_int_7 by (rule fmul_7_feet)
  finally show ?thesis unfolding lit_0_3048 by (simp only: fdiv_7_feet)
qed

lemma base_unit_identity:
  assumes "is_double v"
  shows "fdiv (fmul v (lit 1.0)) (lit 1.0) = v"
proof (cases v)
  case (Num s q)
  with assms have r: "round_to_double s q = Num s q" by simp
  show ?thesis unfolding Num by (simp add: lit_1 r)
next
  case (Infty s)
  then show ?thesis by (simp add: lit_1)
next
  case NaN
  then show ?thesis by (simp add: lit_1)
qed


lemma is_double_7: "is_double (float_of_int 7)"
  by (simp add: float_of_int_7 round_to_double_numeral)

lemma base_unit_conversions:
  assumes "is_double v"
  shows "convert_length v ''meters'' ''meters'' = Inr v"
    and "convert_weight v ''kilograms'' ''kilograms'' = Inr v"
    and "convert_speed v ''m/s'' ''m/s'' = Inr v"
proof -
  have nz: "\<not> is_zero (lit 1.0)" by (simp add: lit_1)
  have "map_of length_units ''meters'' = Some (Some (lit 1.0))" by (simp add: length_units_def)
  from convert_length_linear [OF this this nz, of v]
  show "convert_length v ''meters'' ''meters'' = Inr v"
    by (simp only: base_unit_identity [OF assms])
  have "map_of weight_units ''kilograms'' = Some (Some (lit 1.0))"
    by (simp add: weight_units_def)
  from convert_weight_linear [OF this this nz, of v]
  show "convert_weight v ''kilograms'' ''kilograms'' = Inr v"
    by (simp only: base_unit_identity [OF assms])
  have "map_of speed_units ''m/s'' = Some (Some (lit 1.0))" by (simp add: speed_units_def)
  from convert_speed_linear [OF this this nz, of v]
  show "convert_speed v ''m/s'' ''m/s'' = Inr v"
    by (simp only: base_unit_identity [OF assms])
qed

text \<open>
  Claim C8, as the code has it.  For temperature, converting from a unit \<open>u\<close> of the
  category (celsius, fahrenheit, kelvin) to itself returns \<open>v\<close> unchanged, for every value.
  For a linear category, converting from a unit \<open>u\<close> of the table to itself returns
  \<open>(v * scale[u]) / scale[u]\<close> in float arithmetic; this is \<open>v\<close> itself when \<open>u\<close> is the base
  unit of the category (meters, kilograms, m/s, of scale \<open>1.0\<close>).
\<close>

theorem C8_same_unit_conversion:
  "(u \<in> set (map fst temperature_units) \<longrightarrow> convert_temperature v u u = Inr v)
   \<and> (is_double v \<longrightarrow>
        convert_length v ''meters'' ''meters'' = Inr v
        \<and> convert_weight v ''kilograms'' ''kilograms'' = Inr v
        \<and> convert_speed v ''m/s'' ''m/s'' = Inr v)
   \<and> ((conv, us) \<in> set [(convert_length, length_units), (convert_weight, weight_units),
                          (convert_speed, speed_units)] \<and> u \<in> set (map fst us)
        \<longrightarrow> (\<exists>s. map_of us u = Some (Some s) \<and> conv v u u = Inr (fdiv (fmul v s) s)))"
proof -
  have t: "convert_temperature v u u = Inr v" by (simp add: convert_temperature_def)
  have l: "\<exists>s. map_of us u = Some (Some s) \<and> conv v u u = Inr (fdiv (fmul v s) s)"
    if "(conv, us) \<in> set [(convert_length, length_units), (convert_weight, weight_units),
                          (convert_speed, speed_units)]" "u \<in> set (map fst us)"
    using linear_conversion [OF that(1) that(2) that(2), of v] by auto
  show ?thesis using t base_unit_conversions [of v] l by blast
qed

theorem C8_same_unit_conversion_witness:
  "''kelvin'' \<in> set (map fst temperature_units)
   \<and> convert_temperature (float_of_int 7) ''kelvin'' ''kelvin'' = Inr (float_of_int 7)
   \<and> is_double (float_of_int 7)
   \<and> convert_length (float_of_int 7) ''meters'' ''meters'' = Inr (float_of_int 7)
   \<and> convert_weight (float_of_int 7) ''kilograms'' ''kilograms'' = Inr (float_of_int 7)
   \<and> convert_speed (float_of_int 7) ''m/s'' ''m/s'' = Inr (float_of_int 7)
   \<and> (convert_length, length_units) \<in> set [(convert_length, length_units),
         (convert_weight, weight_units), (convert_speed, speed_units)]
   \<and> ''feet'' \<in> set (map fst length_units)
   \<and> convert_length (float_of_int 7) ''feet'' ''feet''
        = Inr (fdiv (fmul (float_of_int 7) (lit 0.3048)) (lit 0.3048))"
proof -
  note T = C8_same_unit_conversion
  have k: "''kelvin'' \<in> set (map fst temperature_units)" by (simp add: temperature_units_def)
  have m: "''feet'' \<in> set (map fst length_units)" by (simp add: length_units_def)
  have c: "(convert_length, length_units) \<in> set [(convert_length, length_units),
         (convert_weight, weight_units), (convert_speed, speed_units)]" by simp
  have a: "convert_temperature (float_of_int 7) ''kelvin'' ''kelvin'' = Inr (float_of_int 7)"
    by (rule mp [OF T [THEN conjunct1] k])
  have b: "convert_length (float_of_int 7) ''meters'' ''meters'' = Inr (float_of_int 7)
        \<and> convert_weight (float_of_int 7) ''kilograms'' ''kilograms'' = Inr (float_of_int 7)
        \<and> convert_speed (float_of_int 7) ''m/s'' ''m/s'' = Inr (float_of_int 7)"
    by (rule mp [OF T [THEN conjunct2, THEN conjunct1] is_double_7])
  have "\<exists>s. map_of length_units ''feet'' = Some (Some s)
      \<and> convert_length (float_of_int 7) ''feet'' ''feet''
           = Inr (fdiv (fmul (float_of_int 7) s) s)"
    by (rule mp [OF T [THEN conjunct2, THEN conjunct2] conjI [OF c m]])
  then have d: "convert_length (float_of_int 7) ''feet'' ''feet''
        = Inr (fdiv (fmul (float_of_int 7) (lit 0.3048)) (lit 0.3048))"
    by (auto simp: length_units_def)
  show ?thesis using a b c k m d is_double_7 by blast
qed

text \<open>
  Claim C8 as stated, with the identity for every unit, fails on the linear categories.
  For the units of scale other than \<open>1.0\<close> the two roundings do not always cancel: seven
  feet converted to feet
  is \<open>6.999999999999999\<close>, the float just below \<open>7\<close>.  The linear functions have no
  test \<^verbatim>\<open>from_unit == to_unit\<close>; only \<^verbatim>\<open>convert_temperature\<close> has one.
\<close>

theorem C8_same_unit_counterexample:
  "''feet'' \<in> set (map fst length_units)
   \<and> convert_length (float_of_int 7) ''feet'' ''feet'' \<noteq> Inr (float_of_int 7)"
  using convert_7_feet by (simp add: float_of_int_7 length_units_def)

section \<open>Unknown temperature units\<close>

text \<open>
  Claim C6 says that \<^verbatim>\<open>convert_temperature\<close> fails whenever one of the two unit names is
  not celsius, fahrenheit or kelvin.  The test \<^verbatim>\<open>from_unit == to_unit\<close> returns before any
  name is checked, so an unknown unit converted to itself returns the value; with two
  different names the unknown one is reported by a \<^verbatim>\<open>ValueError\<close>.
\<close>

theorem C6_same_unknown_unit_returns_value:
  "''rankine'' \<notin> set [''celsius'', ''fahrenheit'', ''kelvin'']
   \<and> convert_temperature (float_of_int 7) ''rankine'' ''rankine'' = Inr (float_of_int 7)
   \<and> convert_temperature (float_of_int 7) ''rankine'' ''celsius''
        = Inl (ValueError ''Unsupported temperature unit: rankine'')
   \<and> convert_temperature (float_of_int 7) ''celsius'' ''rankine''
        = Inl (ValueError ''Unsupported temperature unit: rankine'')"
  by (simp add: convert_temperature_def)

section \<open>The endpoint \<^verbatim>\<open>POST /convert\<close>\<close>

lemma validate_units_passes:
  assumes "validate_units (Some c) f t = Inr ()"
  shows "\<exists>cat. map_of UNIT_CATEGORIES c = Some cat \<and> f \<in> set (map fst (units cat))
           \<and> t \<in> set (map fst (units cat))"
  using assms by (auto simp: validate_units_def split: option.splits if_splits)

lemma category_cases:
  assumes "map_of UNIT_CATEGORIES c = Some cat"
  obtains "c = ''length''" "units cat = length_units"
    | "c = ''weight''" "units cat = weight_units"
    | "c = ''temperature''" "units cat = temperature_units"
    | "c = ''speed''" "units cat = speed_units"
  using assms by (auto simp: UNIT_CATEGORIES_def split: if_splits)

lemma convert_temperature_total:
  assumes "f \<in> set (map fst temperature_units)" "t \<in> set (map fst temperature_units)"
  shows "\<exists>result. convert_temperature v f t = Inr result"
proof (cases "f = t")
  case True
  then show ?thesis by (simp add: convert_temperature_def)
next
  case False
  have "f \<in> set [''celsius'', ''fahrenheit'', ''kelvin'']"
    "t \<in> set [''celsius'', ''fahrenheit'', ''kelvin'']"
    using assms by (simp_all add: temperature_units_def)
  from convert_temperature_known [OF this False, of v] show ?thesis by blast
qed

lemma conversion_total:
  assumes c: "map_of UNIT_CATEGORIES c = Some cat"
    and f: "f \<in> set (map fst (units cat))" and t: "t \<in> set (map fst (units cat))"
  shows "\<exists>conv result. map_of CONVERSION_FUNC c = Some conv \<and> conv v f t = Inr result"
  using c
proof (cases rule: category_cases)
  case 1
  have "(convert_length, length_units) \<in> set [(convert_length, length_units),
      (convert_weight, weight_units), (convert_speed, speed_units)]" by simp
  from linear_conversion [OF this, of f t v] f t 1
  have "\<exists>result. convert_length v f t = Inr result" by auto
  then show ?thesis using 1 by (simp add: CONVERSION_FUNC_def)
next
  case 2
  have "(convert_weight, weight_units) \<in> set [(convert_length, length_units),
      (convert_weight, weight_units), (convert_speed, speed_units)]" by simp
  from linear_conversion [OF this, of f t v] f t 2
  have "\<exists>result. convert_weight v f t = Inr result" by auto
  then show ?thesis using 2 by (simp add: CONVERSION_FUNC_def)
next
  case 3
  from convert_temperature_total [of f t v] f t 3
  have "\<exists>result. convert_temperature v f t = Inr result" by simp
  then show ?thesis using 3 by (simp add: CONVERSION_FUNC_def)
next
  case 4
  have "(convert_speed, speed_units) \<in> set [(convert_length, length_units),
      (convert_weight, weight_units), (convert_speed, speed_units)]" by simp
  from linear_conversion [OF this, of f t v] f t 4
  have "\<exists>result. convert_speed v f t = Inr result" by auto
  then show ?thesis using 4 by (simp add: CONVERSION_FUNC_def)
qed

lemma py_float_round_result: "\<exists>cv. py_float (round_result (PyFloat d)) = Inr cv"
  by (simp add: round_result_def float_of_int_0)

lemma round_1234_5678:
  "round_to_double False (5429686605511341 / 4398046511104)
     = Num False (5429686605511341 / 4398046511104)"
  by (rule round_to_double_eqI [where e = 10 and n = 5429686605511341]) simp_all

lemma is_double_1234_5678: "is_double (lit 1234.5678)"
  unfolding lit_1234_5678 by (simp add: round_1234_5678)

lemma round_result_1234_5678:
  "round_result (PyFloat (lit 1234.5678)) = PyFloat (lit 1234.57)"
proof -
  have "round_result (PyFloat (lit 1234.5678)) = py_round (PyFloat (lit 1234.5678)) 2"
    unfolding round_result_def lit_1234_5678 lit_1e6 float_of_int_1 threshold_values
    by (simp add: sval_def)
  also have "\<dots> = PyFloat (lit 1234.57)"
    unfolding lit_1234_5678 lit_1234_57 by (simp only: py_round.simps float_round_1234_5678)
  finally show ?thesis .
qed

lemma valid_request_returns:
  assumes "req_category r \<in> set [''length'', ''weight'', ''temperature'', ''speed'']"
    and "validate_units (Some (req_category r)) (req_from_unit r) (req_to_unit r) = Inr ()"
  shows "\<exists>conv result cv.
           map_of CONVERSION_FUNC (req_category r) = Some conv
         \<and> conv (req_value r) (req_from_unit r) (req_to_unit r) = Inr result
         \<and> py_float (round_result (PyFloat result)) = Inr cv
         \<and> post_convert r =
             Returned \<lparr>resp_category = req_category r, resp_from_unit = req_from_unit r,
                       resp_to_unit = req_to_unit r, input_value = req_value r,
                       converted_value = cv\<rparr>"
proof -
  from validate_units_passes [OF assms(2)] obtain cat where
    cat: "map_of UNIT_CATEGORIES (req_category r) = Some cat"
      "req_from_unit r \<in> set (map fst (units cat))" "req_to_unit r \<in> set (map fst (units cat))"
    by blast
  from conversion_total [OF cat, of "req_value r"] obtain conv result where
    conv: "map_of CONVERSION_FUNC (req_category r) = Some conv"
      "conv (req_value r) (req_from_unit r) (req_to_unit r) = Inr result" by blast
  from py_float_round_result [of result] obtain cv where
    cv: "py_float (round_result (PyFloat result)) = Inr cv" by blast
  have "convert_units r =
      Returned \<lparr>resp_category = req_category r, resp_from_unit = req_from_unit r,
                resp_to_unit = req_to_unit r, input_value = req_value r,
                converted_value = cv\<rparr>"
    by (simp add: convert_units_def getitem_def conv cv)
  moreover have "post_convert r = convert_units r"
    using assms by (simp add: post_convert_def)
  ultimately show ?thesis using conv cv by auto
qed

text \<open>
  Claim C9, as the code has it.  For every valid request to \<^verbatim>\<open>POST /convert\<close> (the category
  is one of the four and the root validator accepts the units) whose value is finite, the
  conversion succeeds; and when the converted value, which is the conversion result after
  \<^verbatim>\<open>round_result\<close>, is finite too, the endpoint answers 200 and the response echoes
  \<^verbatim>\<open>category\<close>, \<^verbatim>\<open>from_unit\<close>, \<^verbatim>\<open>to_unit\<close> and the value as received: \<^verbatim>\<open>input_value\<close> is the
  request's value, not rounded, and only \<^verbatim>\<open>converted_value\<close> goes through \<^verbatim>\<open>round_result\<close>.
\<close>

theorem C9_convert_echoes_request:
  assumes "req_category r \<in> set [''length'', ''weight'', ''temperature'', ''speed'']"
    and "validate_units (Some (req_category r)) (req_from_unit r) (req_to_unit r) = Inr ()"
    and "is_finite (req_value r)"
  shows "\<exists>conv result cv.
           map_of CONVERSION_FUNC (req_category r) = Some conv
         \<and> conv (req_value r) (req_from_unit r) (req_to_unit r) = Inr result
         \<and> py_float (round_result (PyFloat result)) = Inr cv
         \<and> (is_finite cv \<longrightarrow>
              http_post_convert r =
                \<lparr>status_code = 200,
                   content = [(''category'', FStr (req_category r)),
                              (''from_unit'', FStr (req_from_unit r)),
                              (''to_unit'', FStr (req_to_unit r)),
                              (''input_value'', FNum (req_value r)),
                              (''converted_value'', FNum cv)]\<rparr>)"
proof -
  from valid_request_returns [OF assms(1,2)] obtain conv result cv where
    c: "map_of CONVERSION_FUNC (req_category r) = Some conv"
      "conv (req_value r) (req_from_unit r) (req_to_unit r) = Inr result"
      "py_float (round_result (PyFloat result)) = Inr cv"
      "post_convert r =
             Returned \<lparr>resp_category = req_category r, resp_from_unit = req_from_unit r,
                       resp_to_unit = req_to_unit r, input_value = req_value r,
                       converted_value = cv\<rparr>"
    by blast
  have "http_post_convert r =
                \<lparr>status_code = 200,
                   content = [(''category'', FStr (req_category r)),
                              (''from_unit'', FStr (req_from_unit r)),
                              (''to_unit'', FStr (req_to_unit r)),
                              (''input_value'', FNum (req_value r)),
                              (''converted_value'', FNum cv)]\<rparr>" if "is_finite cv"
    using that assms(3)
    by (simp add: http_post_convert_def c(4) json_response_def unit_response_fields_def)
  with c(1,2,3) show ?thesis by blast
qed

theorem C9_convert_echoes_request_witness:
  "''length'' \<in> set [''length'', ''weight'', ''temperature'', ''speed'']
   \<and> validate_units (Some ''length'') ''meters'' ''meters'' = Inr ()
   \<and> is_finite (lit 1234.5678)
   \<and> is_finite (lit 1234.57)
   \<and> http_post_convert \<lparr>req_category = ''length'', req_from_unit = ''meters'',
                     req_to_unit = ''meters'', req_value = lit 1234.5678\<rparr>
       = \<lparr>status_code = 200,
          content = [(''category'', FStr ''length''), (''from_unit'', FStr ''meters''),
                     (''to_unit'', FStr ''meters''), (''input_value'', FNum (lit 1234.5678)),
                     (''converted_value'', FNum (lit 1234.57))]\<rparr>"
proof -
  let ?r = "\<lparr>req_category = ''length'', req_from_unit = ''meters'',
             req_to_unit = ''meters'', req_value = lit 1234.5678\<rparr>"
  have h1: "req_category ?r \<in> set [''length'', ''weight'', ''temperature'', ''speed'']"
    by simp
  have v: "validate_units (Some ''length'') ''meters'' ''meters'' = Inr ()"
    by (simp add: validate_units_def UNIT_CATEGORIES_def length_units_def)
  then have h2: "validate_units (Some (req_category ?r)) (req_from_unit ?r) (req_to_unit ?r)
      = Inr ()" by simp
  have f1: "is_finite (lit 1234.5678)" unfolding lit_1234_5678 by simp
  have f2: "is_finite (lit 1234.57)" unfolding lit_1234_57 by simp
  have h3: "is_finite (req_value ?r)" using f1 by simp
  from C9_convert_echoes_request [OF h1 h2 h3] obtain conv result cv where
    c: "map_of CONVERSION_FUNC ''length'' = Some conv"
      "conv (lit 1234.5678) ''meters'' ''meters'' = Inr result"
      "py_float (round_result (PyFloat result)) = Inr cv"
      "is_finite cv \<longrightarrow> http_post_convert ?r =
          \<lparr>status_code = 200,
             content = [(''category'', FStr ''length''), (''from_unit'', FStr ''meters''),
                     (''to_unit'', FStr ''meters''), (''input_value'', FNum (lit 1234.5678)),
                     (''converted_value'', FNum cv)]\<rparr>"
    by auto
  from c(1) have "conv = convert_length" by (simp add: CONVERSION_FUNC_def)
  with c(2) base_unit_conversions(1) [OF is_double_1234_5678]
  have res: "result = lit 1234.5678" by simp
  from c(3) have "py_float (PyFloat (lit 1234.57)) = Inr cv"
    unfolding res round_result_1234_5678 .
  then have cv: "cv = lit 1234.57" by simp
  from c(4) f2 have "http_post_convert ?r =
          \<lparr>status_code = 200,
             content = [(''category'', FStr ''length''), (''from_unit'', FStr ''meters''),
                     (''to_unit'', FStr ''meters''), (''input_value'', FNum (lit 1234.5678)),
                     (''converted_value'', FNum (lit 1234.57))]\<rparr>"
    unfolding cv by (rule mp)
  with v f1 f2 show ?thesis by (intro conjI) simp_all
qed

lemma round_2_1023: "round_to_double False (2 ^ 1023) = Num False (2 ^ 1023)"
  by (rule round_to_double_eqI [where e = 1023 and n = 4503599627370496]) simp_all

lemma is_double_2_1023: "is_double (Num False (2 ^ 1023))"
  by (simp only: is_double.simps round_2_1023) simp

lemma round_overflow: "round_to_double False (2 ^ 1023 * 1000) = Infty False"
proof (rule round_to_double_overflowI [where e = 1032 and n = 8796093022208000
      and r = "2 ^ 1023 * 1000"])
  show "(2::rat) powi 1032 \<le> 2 ^ 1023 * 1000" by simp
  show "(2::rat) ^ 1023 * 1000 < 2 powi (1032 + 1)" by simp
  show "- 1022 \<le> (1032::int)" by simp
  show "\<bar>(2::rat) ^ 1023 * 1000 / 2 powi (1032 - 52) - of_int 8796093022208000\<bar> < 1 / 2"
    by simp
  show "(2::rat) ^ 1023 * 1000 = of_int 8796093022208000 * 2 powi (1032 - 52)" by simp
  show "(2::rat) ^ 1024 \<le> 2 ^ 1023 * 1000" by simp
qed

lemma fmul_overflow: "fmul (Num False (2 ^ 1023)) (Num False 1000) = Infty False"
proof -
  have "fmul (Num False (2 ^ 1023)) (Num False 1000)
      = round_to_double False (2 ^ 1023 * 1000)"
    by (simp only: fmul.simps simp_thms)
  then show ?thesis by (simp only: round_overflow)
qed

lemma lit_1000: "lit 1000.0 = Num False 1000"
  by (simp add: lit_numeral)

lemma lit_1_0: "lit 1.0 = Num False 1"
  by (simp add: lit_1)

lemma convert_overflow:
  "convert_length (Num False (2 ^ 1023)) ''kilometers'' ''meters'' = Inr (Infty False)"
proof -
  have m1: "map_of length_units ''kilometers'' = Some (Some (lit 1000.0))"
    by (simp add: length_units_def)
  have m2: "map_of length_units ''meters'' = Some (Some (lit 1.0))"
    by (simp add: length_units_def)
  have nz: "\<not> is_zero (lit 1.0)" by (simp add: lit_1)
  have "convert_length (Num False (2 ^ 1023)) ''kilometers'' ''meters''
      = Inr (fdiv (fmul (Num False (2 ^ 1023)) (lit 1000.0)) (lit 1.0))"
    by (rule convert_length_linear [OF m1 m2 nz])
  also have "fmul (Num False (2 ^ 1023)) (lit 1000.0) = Infty False"
    unfolding lit_1000 by (rule fmul_overflow)
  finally show ?thesis unfolding lit_1_0 by simp
qed

lemma round_result_infinity: "round_result (PyFloat (Infty False)) = PyFloat (Infty False)"
  unfolding round_result_def lit_1e6 float_of_int_1 threshold_values by simp

text \<open>
  Claim C9 as stated, for every valid request, fails when the conversion overflows: the
  float \<open>2 ^ 1023\<close> (\<^verbatim>\<open>8.98846567431158e+307\<close>) in kilometers is an infinity in meters, the
  handler returns a response model that holds it, the model cannot be rendered as JSON and
  the endpoint answers 500 with nothing echoed.
\<close>

theorem C9_overflow_counterexample:
  "''length'' \<in> set [''length'', ''weight'', ''temperature'', ''speed'']
   \<and> validate_units (Some ''length'') ''kilometers'' ''meters'' = Inr ()
   \<and> is_double (Num False (2 ^ 1023))
   \<and> is_finite (Num False (2 ^ 1023))
   \<and> post_convert \<lparr>req_category = ''length'', req_from_unit = ''kilometers'',
                     req_to_unit = ''meters'', req_value = Num False (2 ^ 1023)\<rparr>
       = Returned \<lparr>resp_category = ''length'', resp_from_unit = ''kilometers'',
                   resp_to_unit = ''meters'', input_value = Num False (2 ^ 1023),
                   converted_value = Infty False\<rparr>
   \<and> http_post_convert \<lparr>req_category = ''length'', req_from_unit = ''kilometers'',
                     req_to_unit = ''meters'', req_value = Num False (2 ^ 1023)\<rparr>
       = \<lparr>status_code = 500, content = []\<rparr>"
proof -
  let ?r = "\<lparr>req_category = ''length'', req_from_unit = ''kilometers'',
             req_to_unit = ''meters'', req_value = Num False (2 ^ 1023)\<rparr>"
  have v: "validate_units (Some ''length'') ''kilometers'' ''meters'' = Inr ()"
    by (simp add: validate_units_def UNIT_CATEGORIES_def length_units_def)
  have cu: "convert_units ?r
       = Returned \<lparr>resp_category = ''length'', resp_from_unit = ''kilometers'',
                   resp_to_unit = ''meters'', input_value = Num False (2 ^ 1023),
                   converted_value = Infty False\<rparr>"
  proof -
    have g: "getitem CONVERSION_FUNC ''length'' = Inr convert_length"
      by (simp add: getitem_def CONVERSION_FUNC_def)
    have pf: "py_float (round_result (PyFloat (Infty False))) = Inr (Infty False)"
      by (simp only: round_result_infinity py_float.simps)
    show ?thesis
      by (simp only: convert_units_def UnitConversionRequest.simps g sum.case
            convert_overflow pf)
  qed
  have pc: "post_convert ?r = convert_units ?r"
    using v by (simp add: post_convert_def)
  have h: "http_post_convert ?r = \<lparr>status_code = 500, content = []\<rparr>"
    unfolding http_post_convert_def pc cu
    by (simp add: json_response_def unit_response_fields_def)
  show ?thesis using v is_double_2_1023 pc cu h by simp
qed





section \<open>The currency endpoints\<close>

text \<open>
  The successful path, for reference: with a provider answer that holds a numeric
  \<^verbatim>\<open>result\<close> and \<^verbatim>\<open>info.rate\<close>, the handler returns the upper-cased currency codes, the
  amount as received and the two rounded numbers.
\<close>

lemma ascii_upper_usd: "ascii_upper ''usd'' = ''USD''" "ascii_upper ''eur'' = ''EUR''"
  by code_simp+

lemma convert_currency_returns:
  assumes "round_result c = c'" "py_float c' = Inr cf"
    and "round_result r = r'" "py_float r' = Inr rf"
  shows "convert_currency str_upper req
     (Upstream_json (JDict [(''success'', JBool True),
        (''info'', JDict [(''rate'', JNum r)]), (''result'', JNum c)]))
   = Returned \<lparr>resp_from_currency = str_upper (from_currency req),
       resp_to_currency = str_upper (to_currency req),
       input_amount = amount req, converted_amount = cf, rate = rf\<rparr>"
  by (simp add: convert_currency_def dict_get_def lookup_rate_def assms)

lemma convert_currency_example:
  "convert_currency ascii_upper \<lparr>from_currency = ''usd'', to_currency = ''eur'', amount = float_of_int 100\<rparr>
     (Upstream_json (JDict [(''success'', JBool True),
        (''info'', JDict [(''rate'', JNum (PyFloat (lit 0.5)))]), (''result'', JNum (PyInt 50))]))
   = Returned \<lparr>resp_from_currency = ''USD'', resp_to_currency = ''EUR'',
       input_amount = float_of_int 100, converted_amount = float_of_int 50, rate = lit 0.5\<rparr>"
proof -
  have r1: "round_result (PyInt 50) = PyInt 50"
    unfolding round_result_def lit_1e6 float_of_int_1 threshold_values by (simp add: sval_def)
  have r2: "py_float (PyInt 50) = Inr (float_of_int 50)"
    by (simp add: float_of_int_numeral)
  have r3: "py_float (PyFloat (lit 0.5)) = Inr (lit 0.5)" by (simp only: py_float.simps)
  show ?thesis
    unfolding convert_currency_returns [OF r1 r2 round_result_half r3]
    by (simp only: ascii_upper_usd CurrencyConversionRequest.simps)
qed

lemma get_currency_symbols_example:
  "get_currency_symbols (Upstream_json (JDict [(''symbols'',
       JDict [(''USD'', JStr ''United States Dollar''), (''EUR'', JStr ''Euro'')])]))
   = Returned [''EUR'', ''USD'']"
  by (simp add: get_currency_symbols_def dict_get_def less_eq_char_def)









text \<open>
  Claim C7 says that both currency endpoints surface every upstream failure as a 502.
  \<^verbatim>\<open>get_currency_symbols\<close> has no \<^verbatim>\<open>try\<close> around the provider call: its exception escapes
  the handler (status 500), where \<^verbatim>\<open>convert_currency\<close> answers 502 for the same failure.
  An answer without \<^verbatim>\<open>symbols\<close> gives the empty list, and an answer that is not a JSON
  object escapes from both handlers as an \<^verbatim>\<open>AttributeError\<close>.
\<close>

theorem C7_symbols_upstream_failure_unhandled:
  "get_currency_symbols (Upstream_raised ''connection refused'')
     = Unhandled (UpstreamException ''connection refused'')
   \<and> map_option status_code
        (error_response (get_currency_symbols (Upstream_raised ''connection refused'')))
       = Some 500
   \<and> map_option status_code (error_response (convert_currency str_upper
         \<lparr>from_currency = ''usd'', to_currency = ''eur'', amount = float_of_int 1\<rparr>
         (Upstream_raised ''connection refused''))) = Some 502
   \<and> get_currency_symbols (Upstream_json (JDict [])) = Returned []
   \<and> get_currency_symbols (Upstream_json (JList [])) = Unhandled AttributeError
   \<and> convert_currency str_upper
         \<lparr>from_currency = ''usd'', to_currency = ''eur'', amount = float_of_int 1\<rparr>
         (Upstream_json (JList [])) = Unhandled AttributeError"
  by (simp add: get_currency_symbols_def convert_currency_def dict_get_def
        custom_http_exception_handler_def)

end
